theory Spec2Isabelle
  imports Main
begin

section \<open>JSON values as the translation code sees them\<close>

text \<open>
  A translation document is whatever a JSON asset holds. The resolver declares its
  cursor as \<^verbatim>\<open>unknown\<close> and tests it at run time, so every JSON kind is kept.
  An object is an association list read with \<^const>\<open>map_of\<close>.
\<close>

datatype json =
    JNull
  | JBool bool
  | JNum int
  | JStr string
  | JArr "json list"
  | JObj "(string \<times> json) list"

text \<open>JavaScript truthiness, used by \<^verbatim>\<open>result && ...\<close> and \<^verbatim>\<open>module.default || module\<close>.\<close>

fun truthy :: "json \<Rightarrow> bool" where
  "truthy JNull = False"
| "truthy (JBool b) = b"
| "truthy (JNum n) = (n \<noteq> 0)"
| "truthy (JStr s) = (s \<noteq> [])"
| "truthy (JArr xs) = True"
| "truthy (JObj kvs) = True"

text \<open>\<^verbatim>\<open>typeof v === "object"\<close>: objects, arrays and \<^verbatim>\<open>null\<close>.\<close>

fun typeof_object :: "json \<Rightarrow> bool" where
  "typeof_object JNull = True"
| "typeof_object (JArr xs) = True"
| "typeof_object (JObj kvs) = True"
| "typeof_object v = False"

section \<open>Key resolution (getNestedTranslation)\<close>

text \<open>\<^verbatim>\<open>key.split(".")\<close>: never empty; the empty key gives one empty segment.\<close>

fun split_on :: "char \<Rightarrow> string \<Rightarrow> string list" where
  "split_on sep [] = [[]]"
| "split_on sep (c # cs) =
     (let r = split_on sep cs
      in if c = sep then [] # r else (c # hd r) # tl r)"

definition is_digit :: "char \<Rightarrow> bool" where
  "is_digit c = (c \<in> set ''0123456789'')"

text \<open>
  \<^verbatim>\<open>parseInt(ds, 10)\<close> on a string of decimal digits. The source compares the number
  with an array length only, so the rounding of doubles above \<open>2^53\<close> never shows.
\<close>

definition digit_val :: "char \<Rightarrow> nat" where
  "digit_val c = of_char c - 48"

definition parseInt10 :: "string \<Rightarrow> nat" where
  "parseInt10 ds = foldl (\<lambda>n c. 10 * n + digit_val c) 0 ds"

text \<open>The regular expression's dot rejects line terminators (here: LF and CR).\<close>

definition is_line_terminator :: "char \<Rightarrow> bool" where
  "is_line_terminator c = (c = CHR 0x0A \<or> c = CHR 0x0D)"

text \<open>
  \<^verbatim>\<open>k.match(/^(.+?)\[(\d+)\]$/)\<close>. The digits cannot hold a bracket, so the
  match, when there is one, is the last \<^verbatim>\<open>[digits]\<close> of the segment with a
  non-empty prefix before it. The result is (group 1, group 2).
\<close>

definition match_bracket :: "string \<Rightarrow> (string \<times> string) option" where
  "match_bracket k =
     (case rev k of
        [] \<Rightarrow> None
      | c # r \<Rightarrow>
          if c \<noteq> CHR '']'' then None
          else (case dropWhile is_digit r of
                  [] \<Rightarrow> None
                | b # p \<Rightarrow>
                    if b = CHR ''['' \<and> takeWhile is_digit r \<noteq> [] \<and> p \<noteq> []
                       \<and> \<not> list_ex is_line_terminator p
                    then Some (rev p, rev (takeWhile is_digit r))
                    else None))"

text \<open>An array's own index keys are the canonical decimal numerals below its length.\<close>

definition canonical_index :: "string \<Rightarrow> bool" where
  "canonical_index k = (k \<noteq> [] \<and> list_all is_digit k \<and> (if hd k = CHR ''0'' then k = ''0'' else True))"

text \<open>
  \<^verbatim>\<open>result && typeof result === "object" && k in result\<close> followed by the read
  \<^verbatim>\<open>result[k]\<close>, as one partial lookup: \<open>None\<close> is the failed test. Arrays pass
  the \<^verbatim>\<open>typeof\<close> test too. Properties inherited from the built-in prototypes
  are functions or prototype objects with nothing but such below them; the walk ends in
  \<^verbatim>\<open>null\<close> through them as it does through an absent key, and they are left out.
\<close>

definition own_prop :: "json \<Rightarrow> string \<Rightarrow> json option" where
  "own_prop result k =
     (if truthy result \<and> typeof_object result then
        (case result of
           JObj kvs \<Rightarrow> map_of kvs k
         | JArr xs \<Rightarrow>
             if k = ''length'' then Some (JNum (int (length xs)))
             else if canonical_index k \<and> parseInt10 k < length xs then Some (xs ! parseInt10 k)
             else None
         | _ \<Rightarrow> None)
      else None)"

text \<open>The \<^verbatim>\<open>for (const k of keys)\<close> loop; \<open>None\<close> is an early \<^verbatim>\<open>return null\<close>.\<close>

fun walk :: "json \<Rightarrow> string list \<Rightarrow> json option" where
  "walk result [] = Some result"
| "walk result (k # ks) =
     (case match_bracket k of
        Some (propName, digits) \<Rightarrow>
          (case own_prop result propName of
             Some (JArr xs) \<Rightarrow>
               if parseInt10 digits < length xs then walk (xs ! parseInt10 digits) ks
               else None
           | _ \<Rightarrow> None)
      | None \<Rightarrow>
          (case own_prop result k of
             Some r \<Rightarrow> walk r ks
           | None \<Rightarrow> None))"

definition getNestedTranslation :: "string \<Rightarrow> json \<Rightarrow> string option" where
  "getNestedTranslation key json =
     (case walk json (split_on (CHR ''.'') key) of
        Some (JStr s) \<Rightarrow> Some s
      | _ \<Rightarrow> None)"

text \<open>
  The specification's reading of a key, for comparison with the loop: a key is a path of
  steps, a segment \<^verbatim>\<open>name[N]\<close> being the property \<^verbatim>\<open>name\<close> followed by the
  array index \<^verbatim>\<open>N\<close>; the path is followed down the tree and the leaf counts only
  when it is a string.
\<close>

datatype step = Prop string | Idx nat

definition segment_steps :: "string \<Rightarrow> step list" where
  "segment_steps seg =
     (case match_bracket seg of
        Some (name, ds) \<Rightarrow> [Prop name, Idx (parseInt10 ds)]
      | None \<Rightarrow> [Prop seg])"

fun descend :: "json \<Rightarrow> step list \<Rightarrow> json option" where
  "descend v [] = Some v"
| "descend v (Prop k # p) = Option.bind (own_prop v k) (\<lambda>c. descend c p)"
| "descend (JArr xs) (Idx i # p) = (if i < length xs then descend (xs ! i) p else None)"
| "descend v (Idx i # p) = None"

definition resolveKey :: "string \<Rightarrow> json \<Rightarrow> string option" where
  "resolveKey key doc =
     (case descend doc (concat (map segment_steps (split_on (CHR ''.'') key))) of
        Some (JStr s) \<Rightarrow> Some s
      | _ \<Rightarrow> None)"

text \<open>The name a segment addresses: group 1 of the match, or the whole segment.\<close>

definition segment_name :: "string \<Rightarrow> string" where
  "segment_name k = (case match_bracket k of Some (name, ds) \<Rightarrow> name | None \<Rightarrow> k)"

text \<open>\<^verbatim>\<open>segments.join(sep)\<close>, to say what a split is.\<close>

fun join_with :: "char \<Rightarrow> string list \<Rightarrow> string" where
  "join_with sep [] = []"
| "join_with sep [x] = x"
| "join_with sep (x # y # rest) = x @ sep # join_with sep (y # rest)"

definition doc_ab :: json where
  "doc_ab = JObj [(''a'', JObj [(''b'', JStr ''hello'')])]"

definition doc_deep :: json where
  "doc_deep =
     JObj [(''page'', JObj [(''list'', JArr [JObj [(''name'', JStr ''first'')],
                                              JObj [(''name'', JStr ''second'')]])])]"

definition doc_items :: json where
  "doc_items = JObj [(''items'', JArr [JStr ''x'', JStr ''y'', JStr ''z''])]"


section \<open>Exceptions\<close>

text \<open>
  What the modelled code can throw: the \<^verbatim>\<open>SecurityError\<close> of a browser that refuses
  access to \<^verbatim>\<open>localStorage\<close>, the \<^verbatim>\<open>Error\<close> of \<open>loadNamespace\<close> for a missing
  import function, the rejection of a dynamic import, and the \<^verbatim>\<open>SyntaxError\<close> of the
  \<^verbatim>\<open>RegExp\<close> constructor with the pattern it was given.
\<close>

datatype error =
    SecurityError
  | NoImportFunction string string
  | ImportRejected string string
  | SyntaxError string

section \<open>Locale detection (detectLanguage)\<close>

datatype LanguageSource = Url | LocalStorage | Html | Browser | Default | Manual

definition availableLocales :: "string list" where
  "availableLocales = [''en'', ''de'']"

definition defaultLanguage :: string where
  "defaultLanguage = ''en''"

text \<open>
  What \<open>detectLanguage\<close> reads from the browser: the \<^verbatim>\<open>lang\<close> query parameter
  (\<^verbatim>\<open>null\<close> when missing); the outcome of \<^verbatim>\<open>localStorage.getItem(STORAGE_KEY)\<close>,
  which is the stored preference or \<^verbatim>\<open>null\<close>, or the exception of a browser that
  refuses the access; the \<^verbatim>\<open>lang\<close> attribute of the root element (\<^verbatim>\<open>null\<close> when
  missing); the legacy \<^verbatim>\<open>navigator.userLanguage\<close> (\<^verbatim>\<open>undefined\<close> when missing) and
  \<^verbatim>\<open>navigator.language\<close>.
\<close>

record browser =
  url_lang :: "string option"
  localStorage_getItem :: "error + string option"
  html_lang :: "string option"
  userLanguage :: "string option"
  navigator_language :: string

record detection =
  language :: string
  source :: LanguageSource

text \<open>
  \<^verbatim>\<open>toLowerCase\<close> on the ASCII letters. No character outside ASCII lowers to one
  of the letters of a supported code, so the membership tests below are not affected.
\<close>

definition toLowerCase_char :: "char \<Rightarrow> char" where
  "toLowerCase_char c =
     (case map_of (zip ''ABCDEFGHIJKLMNOPQRSTUVWXYZ'' ''abcdefghijklmnopqrstuvwxyz'') c of
        Some l \<Rightarrow> l
      | None \<Rightarrow> c)"

definition toLowerCase :: "string \<Rightarrow> string" where
  "toLowerCase s = map toLowerCase_char s"

text \<open>\<^verbatim>\<open>.substring(0, 2).toLowerCase()\<close>\<close>

definition normalizeLang :: "string \<Rightarrow> string" where
  "normalizeLang s = toLowerCase (take 2 s)"

text \<open>Priority 4 and 5: the browser language, then the default.\<close>

definition detect_browser :: "browser \<Rightarrow> detection" where
  "detect_browser b =
     (let browserLang =
            normalizeLang
              (case userLanguage b of
                 Some u \<Rightarrow> if u \<noteq> [] then u else navigator_language b
               | None \<Rightarrow> navigator_language b)
      in if browserLang \<in> set availableLocales
         then \<lparr>language = browserLang, source = Browser\<rparr>
         else \<lparr>language = defaultLanguage, source = Default\<rparr>)"

text \<open>Priority 3: the \<^verbatim>\<open>lang\<close> attribute of the document.\<close>

definition detect_html :: "browser \<Rightarrow> detection" where
  "detect_html b =
     (case html_lang b of
        Some langFromHtml \<Rightarrow>
          if langFromHtml \<noteq> [] \<and> normalizeLang langFromHtml \<in> set availableLocales
          then \<lparr>language = normalizeLang langFromHtml, source = Html\<rparr>
          else detect_browser b
      | None \<Rightarrow> detect_browser b)"

text \<open>
  Priority 2: the stored preference. The read is not inside any \<^verbatim>\<open>try\<close>, so its
  exception leaves \<open>detectLanguage\<close>: \<open>Inl\<close> is the exception thrown.
\<close>

definition detect_storage :: "browser \<Rightarrow> error + detection" where
  "detect_storage b =
     (case localStorage_getItem b of
        Inl e \<Rightarrow> Inl e
      | Inr None \<Rightarrow> Inr (detect_html b)
      | Inr (Some langFromStorage) \<Rightarrow>
          if langFromStorage \<noteq> [] \<and> langFromStorage \<in> set availableLocales
          then Inr \<lparr>language = langFromStorage, source = LocalStorage\<rparr>
          else Inr (detect_html b))"

text \<open>
  Priority 1: the URL parameter; the function as a whole. With a supported code in the
  address the function returns before it touches the storage.
\<close>

definition detectLanguage :: "browser \<Rightarrow> error + detection" where
  "detectLanguage b =
     (case url_lang b of
        Some langFromUrl \<Rightarrow>
          if langFromUrl \<noteq> [] \<and> langFromUrl \<in> set availableLocales
          then Inr \<lparr>language = langFromUrl, source = Url\<rparr>
          else detect_storage b
      | None \<Rightarrow> detect_storage b)"

text \<open>
  The specification's reading: four candidates in priority order, each with its tag; the
  first whose value is a supported code wins, and the default stands when none is.
  \<open>stored\<close> is the stored preference that was read.
\<close>

definition candidates ::
  "browser \<Rightarrow> string option \<Rightarrow> (string option \<times> LanguageSource) list" where
  "candidates b stored =
     [(url_lang b, Url),
      (stored, LocalStorage),
      (map_option normalizeLang (html_lang b), Html),
      (Some (normalizeLang
               (case userLanguage b of
                  Some u \<Rightarrow> if u \<noteq> [] then u else navigator_language b
                | None \<Rightarrow> navigator_language b)), Browser)]"

fun first_supported :: "(string option \<times> LanguageSource) list \<Rightarrow> detection" where
  "first_supported [] = \<lparr>language = defaultLanguage, source = Default\<rparr>"
| "first_supported ((None, src) # rest) = first_supported rest"
| "first_supported ((Some l, src) # rest) =
     (if l \<in> set availableLocales then \<lparr>language = l, source = src\<rparr>
      else first_supported rest)"

definition browser_html :: browser where
  "browser_html =
     \<lparr>url_lang = Some ''DE'', localStorage_getItem = Inr None, html_lang = Some ''DE-at'',
      userLanguage = None, navigator_language = ''en-US''\<rparr>"

definition browser_example :: browser where
  "browser_example =
     \<lparr>url_lang = Some ''de'', localStorage_getItem = Inr (Some ''en''), html_lang = Some ''fr'',
      userLanguage = None, navigator_language = ''en''\<rparr>"

text \<open>A browser that refuses the storage, with and without a language in the address.\<close>

definition browser_refused :: browser where
  "browser_refused =
     \<lparr>url_lang = None, localStorage_getItem = Inl SecurityError, html_lang = Some ''de'',
      userLanguage = None, navigator_language = ''en-US''\<rparr>"

definition browser_refused_url :: browser where
  "browser_refused_url =
     \<lparr>url_lang = Some ''de'', localStorage_getItem = Inl SecurityError, html_lang = None,
      userLanguage = None, navigator_language = ''en-US''\<rparr>"

section \<open>Loading and caching translation documents\<close>

definition translationNamespaces :: "string list" where
  "translationNamespaces =
     [''common'', ''home'', ''shipper'', ''carrier'', ''faq'', ''about'', ''footer'',
      ''get-started'', ''corridor'', ''privacy'', ''cookies'', ''terms'', ''imprint'',
      ''investor'', ''careers'', ''jobs'', ''apply'', ''capital'']"

text \<open>
  The assets behind the dynamic imports: \<open>A locale ns\<close> is what
  \<^verbatim>\<open>import("@locales/locale/ns.json")\<close> settles to, \<open>None\<close> when the promise rejects and
  \<open>Some d\<close> for a module whose default export is \<open>d\<close>. \<open>localeImportMap\<close> has an import
  function for the two locales and the eighteen namespaces and \<^verbatim>\<open>undefined\<close> elsewhere
  (keys are taken from the declared types, not from the objects' prototypes).
\<close>

type_synonym assets = "string \<Rightarrow> string \<Rightarrow> json option"

definition localeImportMap :: "assets \<Rightarrow> string \<Rightarrow> string \<Rightarrow> json option option" where
  "localeImportMap A locale ns =
     (if locale \<in> set availableLocales \<and> ns \<in> set translationNamespaces
      then Some (A locale ns) else None)"

text \<open>
  The module state. A \<^verbatim>\<open>NamespacedTranslations\<close> object lives in \<open>objects\<close> under a
  reference, so that two results can be compared by identity and a write through the
  cache is seen by every holder of the reference; \<open>next_ref\<close> is the next reference to
  hand out. \<open>imports_log\<close> records every import that was started, oldest first.
  Each exported operation runs to completion before the next one starts.
\<close>

record i18n =
  objects :: "nat \<Rightarrow> (string \<times> json) list"
  next_ref :: nat
  translationCache :: "string \<Rightarrow> nat option"
  imports_log :: "(string \<times> string) list"
  pageLanguage :: string

definition initial_i18n :: "string \<Rightarrow> i18n" where
  "initial_i18n lang =
     \<lparr>objects = (\<lambda>r. []), next_ref = 0, translationCache = Map.empty, imports_log = [],
      pageLanguage = lang\<rparr>"

text \<open>\<^verbatim>\<open>obj[k] = v\<close> on a plain object.\<close>

fun obj_set :: "(string \<times> json) list \<Rightarrow> string \<Rightarrow> json \<Rightarrow> (string \<times> json) list" where
  "obj_set [] k v = [(k, v)]"
| "obj_set ((k', v') # kvs) k v =
     (if k' = k then (k, v) # kvs else (k', v') # obj_set kvs k v)"

text \<open>\<^verbatim>\<open>module.default || module\<close> for the module \<^verbatim>\<open>{default: d}\<close>.\<close>

definition default_or_module :: "json \<Rightarrow> json" where
  "default_or_module d = (if truthy d then d else JObj [(''default'', d)])"

fun is_JObj :: "json \<Rightarrow> bool" where
  "is_JObj (JObj kvs) = True"
| "is_JObj v = False"

text \<open>
  The \<^verbatim>\<open>try\<close> block of \<open>loadNamespace\<close>. A missing import function is the thrown
  \<^verbatim>\<open>Error\<close>, a rejected import is the rejection of the awaited promise.
\<close>

definition loadNamespace_try ::
  "assets \<Rightarrow> string \<Rightarrow> string \<Rightarrow> i18n \<Rightarrow> (error + json) \<times> i18n" where
  "loadNamespace_try A locale ns s =
     (case localeImportMap A locale ns of
        None \<Rightarrow> (Inl (NoImportFunction locale ns), s)
      | Some importFn \<Rightarrow>
          (let s' = s\<lparr>imports_log := imports_log s @ [(locale, ns)]\<rparr>
           in case importFn of
                None \<Rightarrow> (Inl (ImportRejected locale ns), s')
              | Some d \<Rightarrow> (Inr (default_or_module d), s')))"

text \<open>\<open>loadNamespace\<close> with its \<^verbatim>\<open>catch\<close>: \<open>Inl\<close> would be a rejected promise.\<close>

function loadNamespace ::
  "assets \<Rightarrow> string \<Rightarrow> string \<Rightarrow> i18n \<Rightarrow> (error + json) \<times> i18n" where
  "loadNamespace A locale ns s =
     (case loadNamespace_try A locale ns s of
        (Inr d, s') \<Rightarrow> (Inr d, s')
      | (Inl err, s') \<Rightarrow>
          if locale \<noteq> defaultLanguage then loadNamespace A defaultLanguage ns s'
          else (Inr (JObj []), s'))"
  by pat_completeness auto
termination
  by (relation "measure (\<lambda>(A, locale, ns, s). if locale = defaultLanguage then 0 else 1)") auto

text \<open>
  \<^verbatim>\<open>translationNamespaces.map(async ...)\<close>: every namespace is loaded, whatever the
  others do; \<^verbatim>\<open>Promise.all\<close> rejects when one of them rejected.
\<close>

fun load_each ::
  "assets \<Rightarrow> string \<Rightarrow> string list \<Rightarrow> i18n \<Rightarrow> (string \<times> (error + json)) list \<times> i18n" where
  "load_each A locale [] s = ([], s)"
| "load_each A locale (ns # rest) s =
     (case loadNamespace A locale ns s of
        (r, s1) \<Rightarrow>
          (case load_each A locale rest s1 of
             (rs, s2) \<Rightarrow> ((ns, r) # rs, s2)))"

fun promise_all :: "(string \<times> (error + json)) list \<Rightarrow> error + (string \<times> json) list" where
  "promise_all [] = Inr []"
| "promise_all ((ns, Inl e) # rest) = Inl e"
| "promise_all ((ns, Inr d) # rest) =
     (case promise_all rest of
        Inl e \<Rightarrow> Inl e
      | Inr ds \<Rightarrow> Inr ((ns, d) # ds))"

text \<open>\<^verbatim>\<open>results.forEach(... combinedTranslations[namespace] = translations)\<close>\<close>

definition combine :: "(string \<times> json) list \<Rightarrow> (string \<times> json) list" where
  "combine results = foldl (\<lambda>obj (ns, d). obj_set obj ns d) [] results"

definition loadLocaleFile_try :: "assets \<Rightarrow> string \<Rightarrow> i18n \<Rightarrow> (error + nat) \<times> i18n" where
  "loadLocaleFile_try A locale s =
     (case load_each A locale translationNamespaces s of
        (rs, s1) \<Rightarrow>
          (case promise_all rs of
             Inl e \<Rightarrow> (Inl e, s1)
           | Inr results \<Rightarrow>
               (Inr (next_ref s1),
                s1\<lparr>objects := (objects s1)(next_ref s1 := combine results),
                   next_ref := Suc (next_ref s1),
                   translationCache := (translationCache s1)(locale \<mapsto> next_ref s1)\<rparr>)))"

text \<open>\<open>loadLocaleFile\<close>: the result is a reference to the combined object.\<close>

function loadLocaleFile ::
  "assets \<Rightarrow> string \<Rightarrow> bool \<Rightarrow> i18n \<Rightarrow> (error + nat) \<times> i18n" where
  "loadLocaleFile A locale useCache s =
     (if useCache \<and> translationCache s locale \<noteq> None
      then (Inr (the (translationCache s locale)), s)
      else (case loadLocaleFile_try A locale s of
              (Inr r, s1) \<Rightarrow> (Inr r, s1)
            | (Inl err, s1) \<Rightarrow>
                if locale \<noteq> defaultLanguage then loadLocaleFile A defaultLanguage useCache s1
                else (Inl err, s1)))"
  by pat_completeness auto
termination
  by (relation "measure (\<lambda>(A, locale, useCache, s). if locale = defaultLanguage then 0 else 1)")
    auto

text \<open>\<open>loadSingleNamespace\<close>: serves or extends the cached object of the locale.\<close>

definition loadSingleNamespace ::
  "assets \<Rightarrow> string \<Rightarrow> string \<Rightarrow> i18n \<Rightarrow> (error + json) \<times> i18n" where
  "loadSingleNamespace A locale ns s =
     (case (case translationCache s locale of
              None \<Rightarrow> None
            | Some r \<Rightarrow>
                (case map_of (objects s r) ns of
                   None \<Rightarrow> None
                 | Some d \<Rightarrow> if truthy d then Some d else None)) of
        Some d \<Rightarrow> (Inr d, s)
      | None \<Rightarrow>
          (case loadNamespace A locale ns s of
             (Inl e, s1) \<Rightarrow> (Inl e, s1)
           | (Inr translations, s1) \<Rightarrow>
               (let s2 = (if translationCache s1 locale = None
                          then s1\<lparr>objects := (objects s1)(next_ref s1 := []),
                                  next_ref := Suc (next_ref s1),
                                  translationCache := (translationCache s1)(locale \<mapsto> next_ref s1)\<rparr>
                          else s1);
                    r = the (translationCache s2 locale)
                in (Inr translations,
                    s2\<lparr>objects := (objects s2)(r := obj_set (objects s2 r) ns translations)\<rparr>))))"

text \<open>
  \<open>clearCache\<close>: the argument is optional, and the test \<^verbatim>\<open>if (locale)\<close> sends the
  empty string the way of \<^verbatim>\<open>undefined\<close>.
\<close>

text \<open>An asset set for the examples: German lacks all but one document.\<close>

definition assets_example :: assets where
  "assets_example locale ns =
     (if locale = ''en'' then Some (JObj [(''title'', JStr ns)])
      else if ns = ''home'' then Some (JObj [(''title'', JStr ''Startseite'')])
      else None)"







text \<open>The imports one \<open>loadNamespace\<close> call starts: the locale's, then the fallback's.\<close>

definition imports_of :: "assets \<Rightarrow> string \<Rightarrow> string \<Rightarrow> (string \<times> string) list" where
  "imports_of A l ns =
     (case localeImportMap A l ns of
        None \<Rightarrow> []
      | Some m \<Rightarrow> [(l, ns)])
     @ (case localeImportMap A l ns of
          Some (Some d) \<Rightarrow> []
        | _ \<Rightarrow> if l \<noteq> defaultLanguage
               then (case localeImportMap A defaultLanguage ns of
                       None \<Rightarrow> []
                     | Some m \<Rightarrow> [(defaultLanguage, ns)])
               else [])"

text \<open>The document \<open>loadNamespace\<close> settles for.\<close>

definition document_for :: "assets \<Rightarrow> string \<Rightarrow> string \<Rightarrow> json" where
  "document_for A l ns =
     (case localeImportMap A l ns of
        Some (Some d) \<Rightarrow> default_or_module d
      | _ \<Rightarrow> (case localeImportMap A defaultLanguage ns of
                Some (Some d) \<Rightarrow> default_or_module d
              | _ \<Rightarrow> JObj []))"


section \<open>Programmatic lookup (t)\<close>











section \<open>The tab controller (initTabs)\<close>

text \<open>
  The configuration after the defaults of the destructuring are filled in. The
  selectors, the attribute names and the name of the query parameter only say which
  elements, attributes and parameter are read; the model starts from what they select.
\<close>

record TabConfig =
  defaultTab :: string
  showAll :: bool
  animationType :: string
  animationDuration :: int
  staggerDelay :: int
  autoRotate :: bool
  autoRotateInterval :: nat

text \<open>
  A trigger: the value of its discriminator attribute (\<^verbatim>\<open>getAttribute\<close> gives
  \<^verbatim>\<open>null\<close> when the attribute is missing) and its class list.
\<close>

record tab =
  tab_attr :: "string option"
  classList :: "string set"

definition active_classes :: "string set" where
  "active_classes = {''active'', ''text-primary'', ''bg-primary-bg''}"

text \<open>
  The two callbacks the controller hands to the timers, and a pending timer. All timers
  of the controller run with the same delay, the rotation interval, so they come due in
  the order in which they were started: \<open>timers\<close> is kept in that order and the first
  entry is the next to run. Timer identifiers are positive and never reused.
\<close>

datatype timer_task = StartAutoRotation | RotateTick

record timer =
  timer_id :: nat
  due :: nat
  task :: timer_task

text \<open>
  The closure variables of \<open>initTabs\<close> and the parts of the page they act on: the
  triggers, the value of the query parameter in the address, and the calls made to
  \<open>switchContent\<close> (value and animate flag, latest first), of which the first is the
  current value. \<open>now\<close> is the clock in milliseconds.
\<close>

record controller =
  tabs :: "tab list"
  currentTabIndex :: nat
  autoRotateInterval_id :: "nat option"
  url_param :: "string option"
  activated :: "(string \<times> bool) list"
  timers :: "timer list"
  next_timer_id :: nat
  now :: nat

text \<open>\<^verbatim>\<open>findIndex\<close>, with \<open>None\<close> for \<open>-1\<close>; \<^verbatim>\<open>find\<close> returns the element there.\<close>

fun findIndex :: "('a \<Rightarrow> bool) \<Rightarrow> 'a list \<Rightarrow> nat option" where
  "findIndex P [] = None"
| "findIndex P (x # xs) = (if P x then Some 0 else map_option Suc (findIndex P xs))"

text \<open>\<^verbatim>\<open>urlParams.get(queryParam) || defaultTab\<close>\<close>

definition param_or_default :: "TabConfig \<Rightarrow> string option \<Rightarrow> string" where
  "param_or_default cfg p =
     (case p of
        Some v \<Rightarrow> if v \<noteq> [] then v else defaultTab cfg
      | None \<Rightarrow> defaultTab cfg)"

text \<open>\<open>updateActiveTab\<close>: the element is told from the others by identity, here its index.\<close>

definition mark_active :: "tab \<Rightarrow> tab" where
  "mark_active x = x\<lparr>classList := (classList x \<union> active_classes) - {''text-text-secondary''}\<rparr>"

definition mark_inactive :: "tab \<Rightarrow> tab" where
  "mark_inactive x = x\<lparr>classList := (classList x - active_classes) \<union> {''text-text-secondary''}\<rparr>"

definition updateActiveTab :: "nat \<Rightarrow> tab list \<Rightarrow> tab list" where
  "updateActiveTab i ts =
     map (\<lambda>(j, x). if j = i then mark_active x else mark_inactive x) (enumerate 0 ts)"



text \<open>\<^verbatim>\<open>setTimeout\<close> and \<^verbatim>\<open>setInterval\<close> with the rotation interval; \<^verbatim>\<open>clearInterval\<close>.\<close>

definition set_timer :: "TabConfig \<Rightarrow> timer_task \<Rightarrow> controller \<Rightarrow> controller" where
  "set_timer cfg k s =
     s\<lparr>timers := timers s
          @ [\<lparr>timer_id = next_timer_id s, due = now s + autoRotateInterval cfg, task = k\<rparr>],
       next_timer_id := Suc (next_timer_id s)\<rparr>"






text \<open>
  \<open>initTabs\<close>, given the triggers and the number of content blocks the selectors match
  and the query parameter of the address. \<open>None\<close> is the early return that sets up
  nothing.
\<close>

definition initTabs ::
  "TabConfig \<Rightarrow> tab list \<Rightarrow> nat \<Rightarrow> string option \<Rightarrow> controller option" where
  "initTabs cfg ts n_contents p =
     (if length ts = 0 \<or> n_contents = 0 then None
      else
        (let initialTab = param_or_default cfg p;
             found = findIndex (\<lambda>x. tab_attr x = Some initialTab) ts;
             s0 = \<lparr>tabs = (case found of Some i \<Rightarrow> updateActiveTab i ts | None \<Rightarrow> ts),
                   currentTabIndex = (case found of Some i \<Rightarrow> i | None \<Rightarrow> 0),
                   autoRotateInterval_id = None,
                   url_param = p,
                   activated = [(initialTab, False)],
                   timers = [],
                   next_timer_id = 1,
                   now = 0\<rparr>
         in Some (if autoRotate cfg then set_timer cfg StartAutoRotation s0 else s0)))"





text \<open>The current value, and the triggers that carry the active marker classes.\<close>

definition current_value :: "controller \<Rightarrow> string option" where
  "current_value s = (case activated s of [] \<Rightarrow> None | (v, a) # rest \<Rightarrow> Some v)"

definition is_active :: "tab \<Rightarrow> bool" where
  "is_active x = (active_classes \<subseteq> classList x)"

definition unmarked :: "tab \<Rightarrow> bool" where
  "unmarked x = (classList x \<inter> active_classes = {})"


text \<open>Examples: three triggers, of which the second may lack its attribute.\<close>

definition config_example :: TabConfig where
  "config_example =
     \<lparr>defaultTab = ''a'', showAll = False, animationType = ''fade-left'',
      animationDuration = 600, staggerDelay = 1000, autoRotate = True,
      autoRotateInterval = 5000\<rparr>"

definition tabs_abc :: "tab list" where
  "tabs_abc =
     [\<lparr>tab_attr = Some ''a'', classList = {''tech-tab''}\<rparr>,
      \<lparr>tab_attr = Some ''b'', classList = {''tech-tab''}\<rparr>,
      \<lparr>tab_attr = Some ''c'', classList = {''tech-tab''}\<rparr>]"

definition tabs_gap :: "tab list" where
  "tabs_gap =
     [\<lparr>tab_attr = Some ''a'', classList = {''tech-tab''}\<rparr>,
      \<lparr>tab_attr = None, classList = {''tech-tab''}\<rparr>,
      \<lparr>tab_attr = Some ''c'', classList = {''tech-tab''}\<rparr>]"

section \<open>Switching the content blocks (switchContent)\<close>

text \<open>
  A content block: its discriminator attribute and its rendered height. A block is
  named by its position among the selected blocks.
\<close>

record content =
  content_attr :: "string option"
  offsetHeight :: int

text \<open>
  What a call does, in program order: writes to the page, and timers it starts. A style
  property that is written as a number of milliseconds keeps the number. The callback
  of a timer is the list of what it does when it runs.
\<close>

datatype dom_op =
    SetPropertyMs nat string int
  | ClassListRemove nat string
  | ClassListAddNextFrame nat string
  | SetDisplay nat string
  | SetAttribute nat string string
  | ForceReflow nat
  | WrapperMinHeightPx int
  | WrapperMinHeightMeasured
  | WrapperMinHeightUnset
  | WrapperTransitionMs int
  | SetTimeout int "dom_op list"

definition shouldShow :: "TabConfig \<Rightarrow> string \<Rightarrow> content \<Rightarrow> bool" where
  "shouldShow cfg tabValue c =
     (if showAll cfg then tabValue = ''all'' \<or> content_attr c = Some tabValue
      else content_attr c = Some tabValue)"

definition itemsToShow :: "TabConfig \<Rightarrow> content list \<Rightarrow> string \<Rightarrow> nat list" where
  "itemsToShow cfg contents tabValue =
     filter (\<lambda>i. shouldShow cfg tabValue (contents ! i)) [0..<length contents]"

definition itemsToHide :: "TabConfig \<Rightarrow> content list \<Rightarrow> string \<Rightarrow> nat list" where
  "itemsToHide cfg contents tabValue =
     filter (\<lambda>i. \<not> shouldShow cfg tabValue (contents ! i)) [0..<length contents]"

definition hideDuration :: int where
  "hideDuration = 200"

text \<open>The body of \<^verbatim>\<open>itemsToHide.forEach((item, index) => ...)\<close> for one item.\<close>

definition hide_item :: "bool \<Rightarrow> nat \<Rightarrow> nat \<Rightarrow> dom_op list" where
  "hide_item animate index item =
     (if animate
      then [SetPropertyMs item ''--delay'' (int index * 30),
            SetPropertyMs item ''--duration'' hideDuration,
            ClassListRemove item ''is-visible'',
            SetTimeout (hideDuration + int index * 30) [SetDisplay item ''none'']]
      else [SetDisplay item ''none'', ClassListRemove item ''is-visible''])"

text \<open>The body of \<^verbatim>\<open>itemsToShow.forEach((item, index) => ...)\<close> for one item.\<close>

definition show_item :: "TabConfig \<Rightarrow> nat \<Rightarrow> nat \<Rightarrow> dom_op list" where
  "show_item cfg index item =
     [SetDisplay item ''block'',
      ClassListRemove item ''is-visible'',
      SetAttribute item ''data-animate'' (animationType cfg),
      ForceReflow item,
      SetPropertyMs item ''--delay'' (int index * staggerDelay cfg),
      SetPropertyMs item ''--duration'' (animationDuration cfg),
      ClassListAddNextFrame item ''is-visible'']"

text \<open>\<^verbatim>\<open>forEach\<close> with the index.\<close>

definition forEach_indexed :: "(nat \<Rightarrow> nat \<Rightarrow> dom_op list) \<Rightarrow> nat list \<Rightarrow> dom_op list" where
  "forEach_indexed body items = concat (map (\<lambda>(index, item). body index item) (enumerate 0 items))"

text \<open>The callback that shows the new content.\<close>

definition show_phase :: "TabConfig \<Rightarrow> bool \<Rightarrow> nat list \<Rightarrow> dom_op list" where
  "show_phase cfg wrapper toShow =
     forEach_indexed (show_item cfg) toShow
     @ (if wrapper \<and> \<not> showAll cfg
        then [WrapperTransitionMs (animationDuration cfg),
              SetTimeout (animationDuration cfg + staggerDelay cfg * int (length toShow))
                [WrapperMinHeightMeasured],
              SetTimeout (animationDuration cfg + staggerDelay cfg * int (length toShow) + 50)
                [WrapperMinHeightUnset]]
        else [])"

text \<open>
  \<open>switchContent\<close>. \<open>wrapper\<close> says whether the first block has a parent element.
\<close>

definition switchContent ::
  "TabConfig \<Rightarrow> bool \<Rightarrow> content list \<Rightarrow> string \<Rightarrow> bool \<Rightarrow> dom_op list" where
  "switchContent cfg wrapper contents tabValue animate =
     (let toHide = itemsToHide cfg contents tabValue;
          toShow = itemsToShow cfg contents tabValue;
          hidingContentHeight = foldl (\<lambda>total i. total + offsetHeight (contents ! i)) 0 toHide;
          hideCompleteDelay =
            (if animate then hideDuration + (int (length toHide) - 1) * 30 else 0)
      in (if wrapper \<and> \<not> showAll cfg \<and> length toHide > 0 \<and> hidingContentHeight > 0
          then [WrapperMinHeightPx hidingContentHeight] else [])
         @ forEach_indexed (hide_item animate) toHide
         @ [SetTimeout hideCompleteDelay (show_phase cfg wrapper toShow)])"

text \<open>
  Reading a list of operations: the timers started (delay and callback), and the
  millisecond properties written (block, property, value), each in program order.
\<close>

fun timeouts :: "dom_op list \<Rightarrow> (int \<times> dom_op list) list" where
  "timeouts [] = []"
| "timeouts (SetTimeout d body # ops) = (d, body) # timeouts ops"
| "timeouts (x # ops) = timeouts ops"

fun properties_ms :: "dom_op list \<Rightarrow> (nat \<times> string \<times> int) list" where
  "properties_ms [] = []"
| "properties_ms (SetPropertyMs item name v # ops) = (item, name, v) # properties_ms ops"
| "properties_ms (x # ops) = properties_ms ops"

definition contents_example :: "content list" where
  "contents_example =
     [\<lparr>content_attr = Some ''a'', offsetHeight = 100\<rparr>,
      \<lparr>content_attr = Some ''b'', offsetHeight = 0\<rparr>,
      \<lparr>content_attr = Some ''b'', offsetHeight = 0\<rparr>,
      \<lparr>content_attr = Some ''c'', offsetHeight = 0\<rparr>]"

text \<open>
  The shape of the timer queue that the controller keeps: the pending restarts come
  first, and behind them there is at most the one timer of the rotation, which is the
  timer \<open>autoRotateInterval_id\<close> names; when that variable is \<^verbatim>\<open>null\<close> no rotation
  timer is pending.
\<close>

fun restarts_first :: "timer list \<Rightarrow> bool" where
  "restarts_first [] = True"
| "restarts_first (x # xs) =
     (case task x of
        StartAutoRotation \<Rightarrow> restarts_first xs
      | RotateTick \<Rightarrow> xs = [])"



section \<open>Properties of key resolution\<close>

lemma split_on_nonempty: "split_on sep s \<noteq> []"
  by (induction s) (auto simp: Let_def)

lemma descend_append:
  "descend v (p @ q) = Option.bind (descend v p) (\<lambda>w. descend w q)"
  by (induction v p rule: descend.induct) (auto split: Option.bind_splits)

text \<open>The loop with its early returns follows the path the segments spell.\<close>

lemma walk_descend: "walk v ks = descend v (concat (map segment_steps ks))"
proof (induction ks arbitrary: v)
  case Nil
  show ?case by simp
next
  case (Cons k ks)
  show ?case
  proof (cases "match_bracket k")
    case None
    then show ?thesis
      by (cases "own_prop v k") (simp_all add: segment_steps_def Cons.IH)
  next
    case (Some m)
    obtain name ds where m: "m = (name, ds)" by (cases m)
    show ?thesis
    proof (cases "own_prop v name")
      case None
      with Some m show ?thesis by (simp add: segment_steps_def)
    next
      case inner: (Some c)
      with Some m show ?thesis
        by (cases c) (simp_all add: segment_steps_def Cons.IH)
    qed
  qed
qed

lemma walk_append:
  "walk v (pre @ post) = Option.bind (walk v pre) (\<lambda>w. walk w post)"
  by (simp add: walk_descend descend_append)

lemma own_prop_not_object: "\<not> (truthy v \<and> typeof_object v) \<Longrightarrow> own_prop v k = None"
  by (cases v) (auto simp: own_prop_def)

lemma walk_absent: "own_prop v (segment_name k) = None \<Longrightarrow> walk v (k # ks) = None"
  by (auto simp: segment_name_def split: option.splits)

lemma walk_out_of_bounds:
  "match_bracket k = Some (name, ds) \<Longrightarrow> own_prop v name = Some (JArr xs) \<Longrightarrow>
   length xs \<le> parseInt10 ds \<Longrightarrow> walk v (k # ks) = None"
  by simp

lemma walk_fails_inside:
  assumes "walk doc pre = Some v" and "walk v (k # post) = None"
  shows "walk doc (pre @ k # post) = None"
  using assms by (simp add: walk_append)

lemmas resolve_eval =
  getNestedTranslation_def doc_ab_def doc_items_def match_bracket_def is_digit_def
  own_prop_def parseInt10_def digit_val_def is_line_terminator_def canonical_index_def

lemma join_split: "join_with sep (split_on sep s) = s"
proof (induction s)
  case Nil
  show ?case by simp
next
  case (Cons c cs)
  obtain x r where r: "split_on sep cs = x # r"
    using split_on_nonempty [of sep cs] by (cases "split_on sep cs") auto
  with Cons show ?case
    by (cases r) (auto simp: Let_def)
qed

lemma split_no_sep: "list_all (\<lambda>seg. sep \<notin> set seg) (split_on sep s)"
proof (induction s)
  case Nil
  show ?case by simp
next
  case (Cons c cs)
  obtain x r where r: "split_on sep cs = x # r"
    using split_on_nonempty [of sep cs] by (cases "split_on sep cs") auto
  with Cons show ?case
    by (auto simp: Let_def)
qed

lemma not_digit_bracket: "\<not> is_digit (CHR ''['')"
  by (simp add: is_digit_def)

lemma is_digit_set: "is_digit c \<longleftrightarrow> c \<in> set ''0123456789''"
  by (simp only: is_digit_def)

lemma match_bracket_intro:
  assumes k: "k = name @ ''['' @ ds @ '']''" and ne: "name \<noteq> []" "ds \<noteq> []"
    and dig: "set ds \<subseteq> set ''0123456789''"
    and lt: "CHR 0x0A \<notin> set name" "CHR 0x0D \<notin> set name"
  shows "match_bracket k = Some (name, ds)"
proof -
  from k have rk: "rev k = CHR '']'' # rev ds @ CHR ''['' # rev name"
    by simp
  have all: "\<forall>c \<in> set (rev ds). is_digit c"
  proof
    fix c
    assume "c \<in> set (rev ds)"
    then have "c \<in> set ds" by simp
    with dig have "c \<in> set ''0123456789''" by (rule subsetD)
    then show "is_digit c" by (simp only: is_digit_def)
  qed
  have "takeWhile is_digit (rev ds @ CHR ''['' # rev name)
      = rev ds @ takeWhile is_digit (CHR ''['' # rev name)"
    by (rule takeWhile_append2) (use all in blast)
  then have tw: "takeWhile is_digit (rev ds @ CHR ''['' # rev name) = rev ds"
    by (simp only: takeWhile.simps not_digit_bracket if_False append_Nil2)
  have "dropWhile is_digit (rev ds @ CHR ''['' # rev name)
      = dropWhile is_digit (CHR ''['' # rev name)"
    by (rule dropWhile_append2) (use all in blast)
  then have dw: "dropWhile is_digit (rev ds @ CHR ''['' # rev name) = CHR ''['' # rev name"
    by (simp only: dropWhile.simps not_digit_bracket if_False)
  from lt have nl: "\<not> list_ex is_line_terminator (rev name)"
    unfolding list_ex_iff is_line_terminator_def by auto
  show ?thesis
    unfolding match_bracket_def rk using ne nl by (simp add: tw dw)
qed

lemma match_bracket_elim:
  assumes l: "match_bracket k = Some (name, ds)"
  shows "k = name @ ''['' @ ds @ '']'' \<and> name \<noteq> [] \<and> ds \<noteq> []
     \<and> set ds \<subseteq> set ''0123456789''
     \<and> CHR 0x0A \<notin> set name \<and> CHR 0x0D \<notin> set name"
proof -
  obtain c r where rk: "rev k = c # r"
    using l by (cases "rev k") (simp_all add: match_bracket_def)
  from l rk have c: "c = CHR '']''"
    by (simp add: match_bracket_def split: if_splits)
  obtain b p where dw: "dropWhile is_digit r = b # p"
    using l rk c by (cases "dropWhile is_digit r") (simp_all add: match_bracket_def)
  from l rk c dw have cond: "b = CHR ''['' \<and> takeWhile is_digit r \<noteq> [] \<and> p \<noteq> []
                       \<and> \<not> list_ex is_line_terminator p"
    by (simp add: match_bracket_def split: if_splits)
  with l rk c dw have res: "name = rev p" "ds = rev (takeWhile is_digit r)"
    by (simp_all add: match_bracket_def)
  have "r = takeWhile is_digit r @ dropWhile is_digit r" by simp
  with dw cond have "r = rev ds @ CHR ''['' # rev name"
    by (simp add: res)
  with rk c have "rev k = CHR '']'' # rev ds @ CHR ''['' # rev name" by simp
  then have "rev (rev k) = rev (CHR '']'' # rev ds @ CHR ''['' # rev name)"
    by (rule arg_cong)
  then have k: "k = name @ ''['' @ ds @ '']''" by simp
  have "c' \<in> set ''0123456789''" if "c' \<in> set ds" for c'
  proof -
    from that have "c' \<in> set (takeWhile is_digit r)" by (simp add: res)
    then have "is_digit c'" by (rule set_takeWhileD [THEN conjunct2])
    then show ?thesis by (simp only: is_digit_set)
  qed
  then have dig: "set ds \<subseteq> set ''0123456789''" by blast
  from cond have "\<forall>c' \<in> set p. \<not> is_line_terminator c'"
    by (simp add: list_ex_iff)
  then have lt: "CHR 0x0A \<notin> set name \<and> CHR 0x0D \<notin> set name"
    unfolding res is_line_terminator_def by auto
  from cond have "name \<noteq> []" "ds \<noteq> []" by (simp_all add: res)
  with k dig lt show ?thesis by blast
qed

lemma match_bracket_iff:
  "match_bracket k = Some (name, ds) \<longleftrightarrow>
     k = name @ ''['' @ ds @ '']'' \<and> name \<noteq> [] \<and> ds \<noteq> []
     \<and> set ds \<subseteq> set ''0123456789''
     \<and> CHR 0x0A \<notin> set name \<and> CHR 0x0D \<notin> set name"
  using match_bracket_intro [of k name ds] match_bracket_elim [of k name ds] by blast

lemma parseInt10_snoc: "parseInt10 (ds @ [c]) = 10 * parseInt10 ds + parseInt10 [c]"
  by (simp add: parseInt10_def)

lemma parseInt10_digits: "map (\<lambda>c. parseInt10 [c]) ''0123456789'' = [0, 1, 2, 3, 4, 5, 6, 7, 8, 9]"
  by (simp add: parseInt10_def digit_val_def)


lemma canonical_index_iff:
  "canonical_index k \<longleftrightarrow>
     k \<noteq> [] \<and> set k \<subseteq> set ''0123456789'' \<and> (hd k = CHR ''0'' \<longrightarrow> k = ''0'')"
proof -
  have "list_all is_digit k \<longleftrightarrow> set k \<subseteq> set ''0123456789''"
    unfolding list_all_iff subset_iff Ball_def is_digit_def by (rule refl)
  then show ?thesis
    by (simp only: canonical_index_def if_bool_eq_conj simp_thms)
qed

lemma own_prop_cases:
  "own_prop (JObj kvs) k = map_of kvs k"
  "own_prop (JArr xs) k =
     (if k = ''length'' then Some (JNum (int (length xs)))
      else if k \<noteq> [] \<and> set k \<subseteq> set ''0123456789'' \<and> (hd k = CHR ''0'' \<longrightarrow> k = ''0'')
              \<and> parseInt10 k < length xs
      then Some (xs ! parseInt10 k) else None)"
  "own_prop JNull k = None" "own_prop (JBool b) k = None" "own_prop (JNum n) k = None"
  "own_prop (JStr str) k = None"
  by (simp_all only: own_prop_def canonical_index_iff truthy.simps typeof_object.simps
      json.case simp_thms if_True if_False conj_assoc)

lemma walk_index_on_other:
  "match_bracket k = Some (name, ds) \<Longrightarrow> own_prop v name = Some c \<Longrightarrow> \<forall>xs. c \<noteq> JArr xs \<Longrightarrow>
   walk v (k # ks) = None"
  by (cases c) simp_all

lemma own_prop_scalar: "\<forall>kvs. v \<noteq> JObj kvs \<Longrightarrow> \<forall>xs. v \<noteq> JArr xs \<Longrightarrow> own_prop v k = None"
  by (cases v) (simp_all add: own_prop_def)

text \<open>
  Claim C1 as stated fails where the value reached is an array and the segment has no
  bracket: the test \<^verbatim>\<open>typeof result === "object"\<close> lets an array pass, and
  \<^verbatim>\<open>k in result\<close> holds for an index below its length. The array is no object of the
  document, yet the lookup goes on into it: \<^verbatim>\<open>items.1\<close> resolves to the second
  element.
\<close>

theorem array_by_plain_segment_counterexample:
  "split_on (CHR ''.'') ''items.1'' = [''items'', ''1'']
   \<and> walk doc_items [''items''] = Some (JArr [JStr ''x'', JStr ''y'', JStr ''z''])
   \<and> match_bracket ''1'' = None
   \<and> getNestedTranslation ''items.1'' doc_items = Some ''y''"
  by (simp add: resolve_eval)

text \<open>
  Claim C1, amended. For every document set and every key, \<open>getNestedTranslation\<close> is the
  path descent \<open>resolveKey\<close>: it splits the key at every dot (the segments hold no dot and
  joined by dots give the key back), reads a segment \<^verbatim>\<open>name[digits]\<close> (a non-empty
  name without line break, then decimal digits in brackets at the very end) as the
  property \<open>name\<close> followed by the array index the digits denote in base ten, walks the
  tree, and returns the leaf exactly when it is a string. A plain segment, or the name of
  a bracket segment, is looked up in an object among its members and in an array among
  the array's own properties: the canonical decimal numeral of an index below the length,
  or \<^verbatim>\<open>length\<close>; null, booleans, numbers and strings have no members. The result is
  null as soon as, at any depth, the value reached is neither an object nor an array,
  the segment's name is absent, the index is not below the array's length, or the value
  under the name of a bracket segment is no array. The five lookups of the specification
  come out as stated, and a three-level key is followed through an array of objects.
\<close>

theorem getNestedTranslation_resolves:
  "getNestedTranslation key doc = resolveKey key doc
   \<and> (getNestedTranslation key doc = Some str) =
       (descend doc (concat (map segment_steps (split_on (CHR ''.'') key))) = Some (JStr str))
   \<and> split_on (CHR ''.'') key \<noteq> []
   \<and> join_with (CHR ''.'') (split_on (CHR ''.'') key) = key
   \<and> list_all (\<lambda>seg. CHR ''.'' \<notin> set seg) (split_on (CHR ''.'') key)
   \<and> (match_bracket k = Some (name, ds)) =
       (k = name @ ''['' @ ds @ '']'' \<and> name \<noteq> [] \<and> ds \<noteq> []
        \<and> set ds \<subseteq> set ''0123456789''
        \<and> CHR 0x0A \<notin> set name \<and> CHR 0x0D \<notin> set name)
   \<and> map (\<lambda>c. parseInt10 [c]) ''0123456789'' = [0, 1, 2, 3, 4, 5, 6, 7, 8, 9]
   \<and> parseInt10 (ds @ [c]) = 10 * parseInt10 ds + parseInt10 [c]
   \<and> own_prop (JObj kvs) k = map_of kvs k
   \<and> own_prop (JArr xs) k =
       (if k = ''length'' then Some (JNum (int (length xs)))
        else if k \<noteq> [] \<and> set k \<subseteq> set ''0123456789'' \<and> (hd k = CHR ''0'' \<longrightarrow> k = ''0'')
                \<and> parseInt10 k < length xs
        then Some (xs ! parseInt10 k) else None)
   \<and> own_prop JNull k = None \<and> own_prop (JBool b) k = None
   \<and> own_prop (JNum n) k = None \<and> own_prop (JStr str) k = None
   \<and> (split_on (CHR ''.'') key = pre @ seg # post \<and> walk doc pre = Some v
        \<and> ((\<forall>ms. v \<noteq> JObj ms) \<and> (\<forall>es. v \<noteq> JArr es)
             \<or> own_prop v (segment_name seg) = None
             \<or> (\<exists>nm dg es. match_bracket seg = Some (nm, dg)
                   \<and> own_prop v nm = Some (JArr es) \<and> length es \<le> parseInt10 dg)
             \<or> (\<exists>nm dg w. match_bracket seg = Some (nm, dg)
                   \<and> own_prop v nm = Some w \<and> (\<forall>es. w \<noteq> JArr es)))
        \<longrightarrow> getNestedTranslation key doc = None)
   \<and> getNestedTranslation ''a.b'' doc_ab = Some ''hello''
   \<and> getNestedTranslation ''a.c'' doc_ab = None
   \<and> getNestedTranslation ''a.b.c'' doc_ab = None
   \<and> getNestedTranslation ''items[1]'' doc_items = Some ''y''
   \<and> getNestedTranslation ''items[9]'' doc_items = None
   \<and> getNestedTranslation ''page.list[1].name'' doc_deep = Some ''second''"
proof -
  have eq: "getNestedTranslation key doc = resolveKey key doc"
    by (simp add: getNestedTranslation_def resolveKey_def walk_descend)
  have leaf: "(getNestedTranslation key doc = Some str) =
       (descend doc (concat (map segment_steps (split_on (CHR ''.'') key))) = Some (JStr str))"
    unfolding eq resolveKey_def by (auto split: option.splits json.splits)
  note split = split_on_nonempty [of "CHR ''.''" key] join_split [of "CHR ''.''" key]
    split_no_sep [of "CHR ''.''" key]
  note bracket = match_bracket_iff [of k name ds]
  note number = parseInt10_digits parseInt10_snoc [of ds c]
  have null: "getNestedTranslation key doc = None"
    if parts: "split_on (CHR ''.'') key = pre @ seg # post" and reach: "walk doc pre = Some v"
      and bad: "(\<forall>ms. v \<noteq> JObj ms) \<and> (\<forall>es. v \<noteq> JArr es)
             \<or> own_prop v (segment_name seg) = None
             \<or> (\<exists>nm dg es. match_bracket seg = Some (nm, dg)
                   \<and> own_prop v nm = Some (JArr es) \<and> length es \<le> parseInt10 dg)
             \<or> (\<exists>nm dg w. match_bracket seg = Some (nm, dg)
                   \<and> own_prop v nm = Some w \<and> (\<forall>es. w \<noteq> JArr es))"
  proof -
    have "walk v (seg # post) = None"
      using bad own_prop_scalar walk_absent walk_out_of_bounds walk_index_on_other by blast
    with reach have "walk doc (pre @ seg # post) = None"
      by (rule walk_fails_inside)
    with parts show ?thesis
      by (simp add: getNestedTranslation_def)
  qed
  have e1: "getNestedTranslation ''a.b'' doc_ab = Some ''hello''"
    by (simp add: resolve_eval)
  have e2: "getNestedTranslation ''a.c'' doc_ab = None"
    by (simp add: resolve_eval)
  have e3: "getNestedTranslation ''a.b.c'' doc_ab = None"
    by (simp add: resolve_eval)
  have e4: "getNestedTranslation ''items[1]'' doc_items = Some ''y''"
    by (simp add: resolve_eval)
  have e5: "getNestedTranslation ''items[9]'' doc_items = None"
    by (simp add: resolve_eval)
  have e6: "getNestedTranslation ''page.list[1].name'' doc_deep = Some ''second''"
    by (simp add: resolve_eval doc_deep_def)
  from null have none: "split_on (CHR ''.'') key = pre @ seg # post \<and> walk doc pre = Some v
        \<and> ((\<forall>ms. v \<noteq> JObj ms) \<and> (\<forall>es. v \<noteq> JArr es)
             \<or> own_prop v (segment_name seg) = None
             \<or> (\<exists>nm dg es. match_bracket seg = Some (nm, dg)
                   \<and> own_prop v nm = Some (JArr es) \<and> length es \<le> parseInt10 dg)
             \<or> (\<exists>nm dg w. match_bracket seg = Some (nm, dg)
                   \<and> own_prop v nm = Some w \<and> (\<forall>es. w \<noteq> JArr es)))
        \<longrightarrow> getNestedTranslation key doc = None"
    by blast
  note all = eq leaf split bracket number own_prop_cases none e1 e2 e3 e4 e5 e6
  show ?thesis
    by (intro conjI) (rule all)+
qed

theorem getNestedTranslation_resolves_witness:
  "split_on (CHR ''.'') ''items[3]'' = [] @ ''items[3]'' # []
   \<and> walk doc_items [] = Some doc_items
   \<and> match_bracket ''items[3]'' = Some (''items'', ''3'')
   \<and> own_prop doc_items ''items'' = Some (JArr [JStr ''x'', JStr ''y'', JStr ''z''])
   \<and> length [JStr ''x'', JStr ''y'', JStr ''z''] \<le> parseInt10 ''3''
   \<and> getNestedTranslation ''items[3]'' doc_items = None
   \<and> parseInt10 ''42'' = 42"
proof -
  note inst = getNestedTranslation_resolves
    [where key = "''items[3]''" and doc = doc_items and pre = "[]" and seg = "''items[3]''"
       and post = "[]" and v = doc_items and ds = "''4''" and c = "CHR ''2''"]
  have a: "split_on (CHR ''.'') ''items[3]'' = [] @ ''items[3]'' # []"
    by simp
  have b: "walk doc_items [] = Some doc_items"
    by simp
  have c: "match_bracket ''items[3]'' = Some (''items'', ''3'')"
    by (simp add: match_bracket_def is_digit_def is_line_terminator_def)
  have d: "own_prop doc_items ''items'' = Some (JArr [JStr ''x'', JStr ''y'', JStr ''z''])"
    by (simp add: own_prop_def doc_items_def)
  have e: "length [JStr ''x'', JStr ''y'', JStr ''z''] \<le> parseInt10 ''3''"
    by (simp add: parseInt10_def digit_val_def)
  have f: "getNestedTranslation ''items[3]'' doc_items = None"
    using inst a b c d e by blast
  from inst have "map (\<lambda>c. parseInt10 [c]) ''0123456789'' = [0, 1, 2, 3, 4, 5, 6, 7, 8, 9]"
    and "parseInt10 (''4'' @ [CHR ''2'']) = 10 * parseInt10 ''4'' + parseInt10 [CHR ''2'']"
    by simp_all
  then have g: "parseInt10 ''42'' = 42"
    by simp
  from a b c d e f g show ?thesis by blast
qed

section \<open>Properties of locale detection\<close>

lemma empty_unsupported: "[] \<notin> set availableLocales"
  by (simp add: availableLocales_def)

lemma normalizeLang_empty: "normalizeLang [] = []"
  by (simp add: normalizeLang_def toLowerCase_def)

lemma detect_html_first_supported:
  "detect_html b = first_supported (drop 2 (candidates b stored))"
  using empty_unsupported
  by (auto simp: detect_html_def detect_browser_def candidates_def Let_def normalizeLang_empty
      split: option.splits)

lemma detectLanguage_first_supported:
  "localStorage_getItem b = Inr stored \<Longrightarrow>
   detectLanguage b = Inr (first_supported (candidates b stored))"
  using empty_unsupported detect_html_first_supported [of b stored]
  by (auto simp: detectLanguage_def detect_storage_def candidates_def split: option.splits)

lemma detectLanguage_url:
  "url_lang b = Some l \<Longrightarrow> l \<in> set availableLocales \<Longrightarrow>
   detectLanguage b = Inr \<lparr>language = l, source = Url\<rparr>"
  using empty_unsupported by (auto simp: detectLanguage_def)

lemma detectLanguage_throws:
  "localStorage_getItem b = Inl e \<Longrightarrow> \<not> (\<exists>l. url_lang b = Some l \<and> l \<in> set availableLocales) \<Longrightarrow>
   detectLanguage b = Inl e"
  by (auto simp: detectLanguage_def detect_storage_def split: option.splits)

lemma first_supported_language: "language (first_supported cs) \<in> set availableLocales"
  by (induction cs rule: first_supported.induct)
    (auto simp: availableLocales_def defaultLanguage_def)

lemma first_supported_none:
  "list_all (\<lambda>(v, src). case v of None \<Rightarrow> True | Some l \<Rightarrow> l \<notin> set availableLocales) cs \<Longrightarrow>
   first_supported cs = \<lparr>language = defaultLanguage, source = Default\<rparr>"
  by (induction cs rule: first_supported.induct) auto

lemma toLowerCase_upper:
  "map toLowerCase_char ''ABCDEFGHIJKLMNOPQRSTUVWXYZ'' = ''abcdefghijklmnopqrstuvwxyz''"
  by (simp add: toLowerCase_char_def)

lemma toLowerCase_other:
  "c \<notin> set ''ABCDEFGHIJKLMNOPQRSTUVWXYZ'' \<Longrightarrow> toLowerCase_char c = c"
  by (simp add: toLowerCase_char_def)

lemma lower_e: "toLowerCase_char c = CHR ''e'' \<longleftrightarrow> c = CHR ''e'' \<or> c = CHR ''E''"
  by (auto simp: toLowerCase_char_def split: if_splits)
lemma lower_n: "toLowerCase_char c = CHR ''n'' \<longleftrightarrow> c = CHR ''n'' \<or> c = CHR ''N''"
  by (auto simp: toLowerCase_char_def split: if_splits)
lemma lower_d: "toLowerCase_char c = CHR ''d'' \<longleftrightarrow> c = CHR ''d'' \<or> c = CHR ''D''"
  by (auto simp: toLowerCase_char_def split: if_splits)


lemma map_pair_iff: "map f xs = [x, y] \<longleftrightarrow> (\<exists>a b. xs = [a, b] \<and> f a = x \<and> f b = y)"
  by (cases xs; cases "tl xs"; cases "tl (tl xs)") auto

lemma normalizeLang_supported:
  "(normalizeLang s \<in> {''en'', ''de''}) =
     (take 2 s \<in> {''en'', ''eN'', ''En'', ''EN'', ''de'', ''dE'', ''De'', ''DE''})"
proof -
  have en: "(map toLowerCase_char xs = ''en'') =
      (xs = ''en'' \<or> xs = ''eN'' \<or> xs = ''En'' \<or> xs = ''EN'')" for xs
    by (simp only: map_pair_iff lower_e lower_n) blast
  have de: "(map toLowerCase_char xs = ''de'') =
      (xs = ''de'' \<or> xs = ''dE'' \<or> xs = ''De'' \<or> xs = ''DE'')" for xs
    by (simp only: map_pair_iff lower_e lower_d) blast
  show ?thesis
    by (simp only: normalizeLang_def toLowerCase_def insert_iff empty_iff en de simp_thms
        disj_assoc)
qed

lemmas detect_eval =
  detectLanguage_def detect_storage_def detect_html_def detect_browser_def candidates_def
  availableLocales_def defaultLanguage_def normalizeLang_def toLowerCase_def
  toLowerCase_char_def

text \<open>
  Claim C2 as stated fails where the browser refuses access to the storage: the read of
  the stored preference throws, nothing in \<open>detectLanguage\<close> catches it, and without a
  supported code in the address the function ends in that exception, not in a result.
\<close>

theorem storage_refused_counterexample:
  "url_lang browser_refused = None
   \<and> localStorage_getItem browser_refused = Inl SecurityError
   \<and> html_lang browser_refused = Some ''de''
   \<and> detectLanguage browser_refused = Inl SecurityError"
  by (simp add: detect_eval browser_refused_def)

text \<open>
  Claim C2, amended. The supported codes are \<open>en\<close> and \<open>de\<close>, the default is \<open>en\<close>.
  With a supported code in the URL parameter \<open>detectLanguage\<close> returns it, tagged
  \<open>Url\<close>, whatever the storage does. Otherwise it reads the stored preference: when
  that read throws, \<open>detectLanguage\<close> throws the same exception; when it returns, the
  result is the first of the URL parameter, the stored preference, the document
  attribute cut to its first two characters and lowercased, and the browser language
  treated the same way, whose value is a supported code, tagged with its source, and
  \<open>en\<close> tagged \<open>Default\<close> when none is. Whenever there is a result its language is
  supported. Cutting and lowercasing takes the first two characters and maps the capital
  letters \<open>A\<close> to \<open>Z\<close> to their small ones, leaving every other character; it gives a
  supported code exactly for the strings that begin with \<open>en\<close> or \<open>de\<close> in any mix of
  cases. With \<^verbatim>\<open>?lang=de\<close>, stored \<open>en\<close>, document \<open>fr\<close> and browser \<open>en\<close> the result
  is \<open>de\<close> from the URL.
\<close>

theorem detectLanguage_priority:
  "availableLocales = [''en'', ''de''] \<and> defaultLanguage = ''en''
   \<and> (url_lang b = Some l \<and> l \<in> {''en'', ''de''}
        \<longrightarrow> detectLanguage b = Inr \<lparr>language = l, source = Url\<rparr>)
   \<and> (localStorage_getItem b = Inl e
        \<and> \<not> (\<exists>u. url_lang b = Some u \<and> u \<in> {''en'', ''de''})
        \<longrightarrow> detectLanguage b = Inl e)
   \<and> (localStorage_getItem b = Inr stored
        \<longrightarrow> detectLanguage b = Inr (first_supported (candidates b stored)))
   \<and> (localStorage_getItem b = Inr stored
        \<and> list_all (\<lambda>(v, src). case v of None \<Rightarrow> True | Some c \<Rightarrow> c \<notin> {''en'', ''de''})
            (candidates b stored)
        \<longrightarrow> detectLanguage b = Inr \<lparr>language = ''en'', source = Default\<rparr>)
   \<and> (detectLanguage b = Inr d \<longrightarrow> language d \<in> {''en'', ''de''})
   \<and> normalizeLang s = map toLowerCase_char (take 2 s)
   \<and> map toLowerCase_char ''ABCDEFGHIJKLMNOPQRSTUVWXYZ'' = ''abcdefghijklmnopqrstuvwxyz''
   \<and> (c \<notin> set ''ABCDEFGHIJKLMNOPQRSTUVWXYZ'' \<longrightarrow> toLowerCase_char c = c)
   \<and> (normalizeLang s \<in> {''en'', ''de''}) =
       (take 2 s \<in> {''en'', ''eN'', ''En'', ''EN'', ''de'', ''dE'', ''De'', ''DE''})
   \<and> detectLanguage browser_example = Inr \<lparr>language = ''de'', source = Url\<rparr>"
proof -
  have locales: "set availableLocales = {''en'', ''de''}"
    by (simp add: availableLocales_def)
  have a: "availableLocales = [''en'', ''de'']" "defaultLanguage = ''en''"
    by (simp_all add: availableLocales_def defaultLanguage_def)
  have b: "url_lang b = Some l \<and> l \<in> {''en'', ''de''}
        \<longrightarrow> detectLanguage b = Inr \<lparr>language = l, source = Url\<rparr>"
    using detectLanguage_url [of b l] unfolding locales by blast
  have c: "localStorage_getItem b = Inl e
        \<and> \<not> (\<exists>u. url_lang b = Some u \<and> u \<in> {''en'', ''de''})
        \<longrightarrow> detectLanguage b = Inl e"
    using detectLanguage_throws [of b e] unfolding locales by blast
  have d: "localStorage_getItem b = Inr stored
        \<longrightarrow> detectLanguage b = Inr (first_supported (candidates b stored))"
    using detectLanguage_first_supported [of b stored] by blast
  have e: "localStorage_getItem b = Inr stored
        \<and> list_all (\<lambda>(v, src). case v of None \<Rightarrow> True | Some c \<Rightarrow> c \<notin> {''en'', ''de''})
            (candidates b stored)
        \<longrightarrow> detectLanguage b = Inr \<lparr>language = ''en'', source = Default\<rparr>"
    using detectLanguage_first_supported [of b stored] first_supported_none [of "candidates b stored"]
    unfolding locales a(2) by simp
  have f: "detectLanguage b = Inr d \<longrightarrow> language d \<in> {''en'', ''de''}"
  proof
    assume res: "detectLanguage b = Inr d"
    show "language d \<in> {''en'', ''de''}"
    proof (cases "localStorage_getItem b")
      case (Inr stored')
      from detectLanguage_first_supported [OF this] res
      have "d = first_supported (candidates b stored')" by simp
      with first_supported_language [of "candidates b stored'"] show ?thesis
        unfolding locales by simp
    next
      case (Inl e')
      show ?thesis
      proof (cases "\<exists>u. url_lang b = Some u \<and> u \<in> set availableLocales")
        case True
        then obtain u where u: "url_lang b = Some u" "u \<in> set availableLocales" by blast
        from detectLanguage_url [OF u] res have "language d = u" by auto
        with u(2) show ?thesis unfolding locales by simp
      next
        case False
        from detectLanguage_throws [OF Inl False] res show ?thesis by simp
      qed
    qed
  qed
  have g: "normalizeLang s = map toLowerCase_char (take 2 s)"
    by (simp only: normalizeLang_def toLowerCase_def)
  note h = toLowerCase_upper
  have i: "c \<notin> set ''ABCDEFGHIJKLMNOPQRSTUVWXYZ'' \<longrightarrow> toLowerCase_char c = c"
    using toLowerCase_other [of c] by blast
  note j = normalizeLang_supported [of s]
  have k: "detectLanguage browser_example = Inr \<lparr>language = ''de'', source = Url\<rparr>"
    by (simp add: detect_eval browser_example_def)
  note all = a b c d e f g h i j k
  show ?thesis
    by (intro conjI) (rule all)+
qed

theorem detectLanguage_priority_witness:
  "localStorage_getItem browser_html = Inr None
   \<and> first_supported (candidates browser_html None) = \<lparr>language = ''de'', source = Html\<rparr>
   \<and> detectLanguage browser_html = Inr \<lparr>language = ''de'', source = Html\<rparr>
   \<and> url_lang browser_refused_url = Some ''de''
   \<and> localStorage_getItem browser_refused_url = Inl SecurityError
   \<and> detectLanguage browser_refused_url = Inr \<lparr>language = ''de'', source = Url\<rparr>"
proof -
  have a: "localStorage_getItem browser_html = Inr None"
    by (simp add: browser_html_def)
  have b: "first_supported (candidates browser_html None) = \<lparr>language = ''de'', source = Html\<rparr>"
    by (simp add: detect_eval browser_html_def)
  from detectLanguage_priority [of browser_html _ _ None] a
  have "detectLanguage browser_html = Inr (first_supported (candidates browser_html None))"
    by blast
  with b have c: "detectLanguage browser_html = Inr \<lparr>language = ''de'', source = Html\<rparr>"
    by simp
  have d: "url_lang browser_refused_url = Some ''de''"
    "localStorage_getItem browser_refused_url = Inl SecurityError"
    by (simp_all add: browser_refused_url_def)
  from detectLanguage_priority [of browser_refused_url "''de''"] d(1)
  have e: "detectLanguage browser_refused_url = Inr \<lparr>language = ''de'', source = Url\<rparr>"
    by blast
  from a b c d e show ?thesis by blast
qed

section \<open>Properties of the loader\<close>

lemma truthy_default_or_module: "truthy (default_or_module d)"
  by (simp add: default_or_module_def)

lemma default_or_module_obj: "is_JObj d \<Longrightarrow> default_or_module d = d"
  by (cases d) (simp_all add: default_or_module_def)

lemma truthy_not_null: "truthy d \<Longrightarrow> d \<noteq> JNull"
  by auto

lemma loadNamespace_try_value:
  "fst (loadNamespace_try A loc ns s) =
     (case localeImportMap A loc ns of
        Some (Some d) \<Rightarrow> Inr (default_or_module d)
      | Some None \<Rightarrow> Inl (ImportRejected loc ns)
      | None \<Rightarrow> Inl (NoImportFunction loc ns))"
  by (simp add: loadNamespace_try_def Let_def split: option.splits)

lemma loadNamespace_default:
  "fst (loadNamespace A defaultLanguage ns s) =
     Inr (case localeImportMap A defaultLanguage ns of
            Some (Some d) \<Rightarrow> default_or_module d
          | _ \<Rightarrow> JObj [])"
  using loadNamespace_try_value [of A defaultLanguage ns s]
  by (cases "loadNamespace_try A defaultLanguage ns s")
     (auto split: option.splits sum.splits)

text \<open>The value of \<open>loadNamespace\<close> in closed form: own document, default's, or empty.\<close>

lemma loadNamespace_value:
  "fst (loadNamespace A loc ns s) =
     Inr (case localeImportMap A loc ns of
            Some (Some d) \<Rightarrow> default_or_module d
          | _ \<Rightarrow> (case localeImportMap A defaultLanguage ns of
                    Some (Some d) \<Rightarrow> default_or_module d
                  | _ \<Rightarrow> JObj []))"
proof (cases "loc = defaultLanguage")
  case True
  then show ?thesis
    by (simp only: loadNamespace_default) (simp split: option.splits)
next
  case False
  obtain r s1 where attempt: "loadNamespace_try A loc ns s = (r, s1)"
    by (cases "loadNamespace_try A loc ns s")
  show ?thesis
  proof (cases r)
    case (Inl e)
    with attempt False have "loadNamespace A loc ns s = loadNamespace A defaultLanguage ns s1"
      by simp
    moreover from attempt Inl have "\<not> (\<exists>d. localeImportMap A loc ns = Some (Some d))"
      using loadNamespace_try_value [of A loc ns s] by (auto split: option.splits)
    ultimately show ?thesis
      by (simp only: loadNamespace_default) (auto split: option.splits)
  next
    case (Inr d)
    with attempt have "loadNamespace A loc ns s = (Inr d, s1)" by simp
    moreover from attempt Inr
    have "localeImportMap A loc ns = Some (Some d') \<Longrightarrow> d = default_or_module d'" for d'
      using loadNamespace_try_value [of A loc ns s] by (auto split: option.splits)
    moreover from attempt Inr have "\<exists>d'. localeImportMap A loc ns = Some (Some d')"
      using loadNamespace_try_value [of A loc ns s] by (auto split: option.splits)
    ultimately show ?thesis by auto
  qed
qed

lemma loadNamespace_Inr: "\<exists>d s'. loadNamespace A loc ns s = (Inr d, s') \<and> truthy d"
proof -
  obtain r s' where res: "loadNamespace A loc ns s = (r, s')"
    by (cases "loadNamespace A loc ns s")
  with loadNamespace_value [of A loc ns s] show ?thesis
    by (auto simp: truthy_default_or_module split: option.splits)
qed

lemma localeImportMap_obj:
  "(\<forall>l n d. A l n = Some d \<longrightarrow> is_JObj d) \<Longrightarrow> localeImportMap A loc ns = Some (Some d) \<Longrightarrow>
   default_or_module d = d \<and> is_JObj d"
  by (auto simp: localeImportMap_def default_or_module_obj split: if_splits)

lemma loadNamespace_obj:
  assumes "\<forall>l n d. A l n = Some d \<longrightarrow> is_JObj d"
  shows "\<exists>kvs. fst (loadNamespace A loc ns s) = Inr (JObj kvs)"
proof -
  have "is_JObj v \<Longrightarrow> \<exists>kvs. v = JObj kvs" for v
    by (cases v) simp_all
  moreover have "is_JObj
     (case localeImportMap A loc ns of
        Some (Some d) \<Rightarrow> default_or_module d
      | _ \<Rightarrow> (case localeImportMap A defaultLanguage ns of
                Some (Some d) \<Rightarrow> default_or_module d
              | _ \<Rightarrow> JObj []))"
    using localeImportMap_obj [OF assms] by (auto split: option.splits)
  ultimately show ?thesis
    by (simp only: loadNamespace_value) blast
qed

lemmas load_eval =
  loadNamespace_try_def localeImportMap_def availableLocales_def translationNamespaces_def
  defaultLanguage_def default_or_module_def initial_i18n_def assets_example_def Let_def

text \<open>
  Claim C3. For every locale and namespace (the supported ones among them),
  \<open>loadNamespace\<close> ends in a value, never in a rejection, and the value is not null.
  When the load of the document fails and the locale is not the default, the result is
  that of loading the same namespace for the default locale; when the load fails for the
  default locale, the result is the empty document. In closed form the value is the
  locale's document if it loads, else the default locale's if that loads, else empty; it
  is a document object whenever the assets that load are objects.
\<close>

theorem loadNamespace_never_raises:
  "(\<exists>d s'. loadNamespace A L N s = (Inr d, s') \<and> truthy d \<and> d \<noteq> JNull)
   \<and> (\<forall>e s1. loadNamespace_try A L N s = (Inl e, s1) \<and> L \<noteq> defaultLanguage
         \<longrightarrow> loadNamespace A L N s = loadNamespace A defaultLanguage N s1)
   \<and> (\<forall>e s1. loadNamespace_try A defaultLanguage N s = (Inl e, s1)
         \<longrightarrow> loadNamespace A defaultLanguage N s = (Inr (JObj []), s1))
   \<and> fst (loadNamespace A L N s) =
       Inr (case localeImportMap A L N of
              Some (Some d) \<Rightarrow> default_or_module d
            | _ \<Rightarrow> (case localeImportMap A defaultLanguage N of
                      Some (Some d) \<Rightarrow> default_or_module d
                    | _ \<Rightarrow> JObj []))
   \<and> ((\<forall>l n d. A l n = Some d \<longrightarrow> is_JObj d)
        \<longrightarrow> (\<exists>kvs. fst (loadNamespace A L N s) = Inr (JObj kvs)))"
proof -
  have a: "\<exists>d s'. loadNamespace A L N s = (Inr d, s') \<and> truthy d \<and> d \<noteq> JNull"
    using loadNamespace_Inr [of A L N s] truthy_not_null by blast
  have b: "loadNamespace A L N s = loadNamespace A defaultLanguage N s1"
    if "loadNamespace_try A L N s = (Inl e, s1)" and "L \<noteq> defaultLanguage" for e s1
    using that by simp
  have c: "loadNamespace A defaultLanguage N s = (Inr (JObj []), s1)"
    if "loadNamespace_try A defaultLanguage N s = (Inl e, s1)" for e s1
    using that by simp
  note d = loadNamespace_value [of A L N s]
  have e: "\<exists>kvs. fst (loadNamespace A L N s) = Inr (JObj kvs)"
    if "\<forall>l n d. A l n = Some d \<longrightarrow> is_JObj d"
    using that by (rule loadNamespace_obj)
  from a b c d e show ?thesis by blast
qed

theorem loadNamespace_never_raises_witness:
  "loadNamespace_try assets_example ''de'' ''common'' (initial_i18n ''de'') =
     (Inl (ImportRejected ''de'' ''common''),
      (initial_i18n ''de'')\<lparr>imports_log := [(''de'', ''common'')]\<rparr>)
   \<and> ''de'' \<noteq> defaultLanguage
   \<and> loadNamespace assets_example ''de'' ''common'' (initial_i18n ''de'') =
       loadNamespace assets_example defaultLanguage ''common''
         ((initial_i18n ''de'')\<lparr>imports_log := [(''de'', ''common'')]\<rparr>)
   \<and> fst (loadNamespace assets_example defaultLanguage ''common''
         ((initial_i18n ''de'')\<lparr>imports_log := [(''de'', ''common'')]\<rparr>)) =
       Inr (JObj [(''title'', JStr ''common'')])"
proof -
  have a: "loadNamespace_try assets_example ''de'' ''common'' (initial_i18n ''de'') =
     (Inl (ImportRejected ''de'' ''common''),
      (initial_i18n ''de'')\<lparr>imports_log := [(''de'', ''common'')]\<rparr>)"
    by (simp add: load_eval)
  have b: "''de'' \<noteq> defaultLanguage"
    by (simp add: defaultLanguage_def)
  have c: "loadNamespace assets_example ''de'' ''common'' (initial_i18n ''de'') =
       loadNamespace assets_example defaultLanguage ''common''
         ((initial_i18n ''de'')\<lparr>imports_log := [(''de'', ''common'')]\<rparr>)"
    using loadNamespace_never_raises
      [of assets_example "''de''" "''common''" "initial_i18n ''de''"] a b
    by blast
  have d: "fst (loadNamespace assets_example defaultLanguage ''common''
         ((initial_i18n ''de'')\<lparr>imports_log := [(''de'', ''common'')]\<rparr>)) =
       Inr (JObj [(''title'', JStr ''common'')])"
    by (simp add: loadNamespace_default) (simp add: load_eval)
  from a b c d show ?thesis by blast
qed

section \<open>Properties of the cache\<close>

text \<open>From here on the two recursive loaders are used through their closed forms.\<close>

declare loadNamespace.simps [simp del] loadLocaleFile.simps [simp del]


lemma loadNamespace_try_state:
  "snd (loadNamespace_try A loc ns s) =
     s\<lparr>imports_log := imports_log s @ (case localeImportMap A loc ns of None \<Rightarrow> [] | Some m \<Rightarrow> [(loc, ns)])\<rparr>"
  by (simp add: loadNamespace_try_def Let_def split: option.splits)

lemma loadNamespace_default_closed:
  "loadNamespace A defaultLanguage ns s =
     (Inr (document_for A defaultLanguage ns),
      s\<lparr>imports_log := imports_log s @ imports_of A defaultLanguage ns\<rparr>)"
  by (subst loadNamespace.simps, cases "localeImportMap A defaultLanguage ns")
     (auto simp: loadNamespace_try_def document_for_def imports_of_def Let_def split: option.splits)

lemma loadNamespace_closed:
  "loadNamespace A loc ns s =
     (Inr (document_for A loc ns), s\<lparr>imports_log := imports_log s @ imports_of A loc ns\<rparr>)"
proof (cases "loc = defaultLanguage")
  case True
  then show ?thesis by (simp only: loadNamespace_default_closed)
next
  case False
  show ?thesis
    apply (subst loadNamespace.simps)
    apply (simp only: loadNamespace_default_closed)
    using False
    apply (auto simp: loadNamespace_try_def document_for_def imports_of_def Let_def split: option.splits)
    done
qed

lemma load_each_closed:
  "load_each A loc nss s =
     (map (\<lambda>ns. (ns, Inr (document_for A loc ns))) nss,
      s\<lparr>imports_log := imports_log s @ concat (map (imports_of A loc) nss)\<rparr>)"
  by (induction nss arbitrary: s) (simp_all add: loadNamespace_closed)

lemma promise_all_Inr:
  "promise_all (map (\<lambda>ns. (ns, Inr (f ns))) nss) = Inr (map (\<lambda>ns. (ns, f ns)) nss)"
  by (induction nss) simp_all

lemma obj_set_fresh: "k \<notin> fst ` set obj \<Longrightarrow> obj_set obj k v = obj @ [(k, v)]"
  by (induction obj k v rule: obj_set.induct) auto

lemma foldl_obj_set:
  "distinct (map fst (acc @ xs)) \<Longrightarrow>
   foldl (\<lambda>obj (ns, d). obj_set obj ns d) acc xs = acc @ xs"
proof (induction xs arbitrary: acc)
  case Nil
  then show ?case by simp
next
  case (Cons x xs)
  obtain k v where x: "x = (k, v)" by (cases x)
  from Cons.prems x have fresh: "k \<notin> fst ` set acc" by auto
  from Cons.prems x have "distinct (map fst ((acc @ [(k, v)]) @ xs))" by simp
  from Cons.IH [OF this] fresh x show ?case
    by (simp add: obj_set_fresh)
qed

lemma combine_distinct: "distinct (map fst xs) \<Longrightarrow> combine xs = xs"
  using foldl_obj_set [of "[]" xs] by (simp add: combine_def)

lemma distinct_namespaces: "distinct translationNamespaces"
  by (simp add: translationNamespaces_def)

lemma loadLocaleFile_try_closed:
  "loadLocaleFile_try A loc s =
     (Inr (next_ref s),
      s\<lparr>imports_log := imports_log s @ concat (map (imports_of A loc) translationNamespaces),
        objects := (objects s)(next_ref s := map (\<lambda>ns. (ns, document_for A loc ns)) translationNamespaces),
        next_ref := Suc (next_ref s),
        translationCache := (translationCache s)(loc \<mapsto> next_ref s)\<rparr>)"
proof -
  have "map fst (map (\<lambda>ns. (ns, document_for A loc ns)) translationNamespaces) = translationNamespaces"
    by (simp add: comp_def)
  then have "combine (map (\<lambda>ns. (ns, document_for A loc ns)) translationNamespaces)
     = map (\<lambda>ns. (ns, document_for A loc ns)) translationNamespaces"
    using distinct_namespaces by (simp add: combine_distinct)
  then show ?thesis
    by (simp add: loadLocaleFile_try_def load_each_closed promise_all_Inr)
qed

lemma loadLocaleFile_hit:
  "translationCache s loc = Some r \<Longrightarrow> loadLocaleFile A loc True s = (Inr r, s)"
  by (subst loadLocaleFile.simps) simp

lemma loadLocaleFile_miss:
  "\<not> (useCache \<and> translationCache s loc \<noteq> None) \<Longrightarrow>
   loadLocaleFile A loc useCache s = loadLocaleFile_try A loc s"
  by (subst loadLocaleFile.simps) (auto simp: loadLocaleFile_try_closed)












lemma loadLocaleFile_refetch:
  assumes "translationCache s loc = None"
  shows "\<exists>s1. loadLocaleFile A loc True s = (Inr (next_ref s), s1)
     \<and> translationCache s1 loc = Some (next_ref s)
     \<and> objects s1 (next_ref s) = map (\<lambda>ns. (ns, document_for A loc ns)) translationNamespaces
     \<and> imports_log s1 = imports_log s @ concat (map (imports_of A loc) translationNamespaces)"
  using assms by (simp add: loadLocaleFile_miss loadLocaleFile_try_closed)


lemma loadSingleNamespace_initial:
  "loadSingleNamespace A loc ns (initial_i18n lang) =
     (Inr (document_for A loc ns),
      (initial_i18n lang)\<lparr>imports_log := imports_of A loc ns,
         objects := (\<lambda>r. [])(0 := [(ns, document_for A loc ns)]),
         next_ref := Suc 0,
         translationCache := [loc \<mapsto> 0]\<rparr>)"
  by (simp add: loadSingleNamespace_def loadNamespace_closed initial_i18n_def Let_def)

text \<open>
  Claim C4, which the code does not meet. The claim says that \<open>loadLocaleFile\<close> with the
  cache enabled returns a set with one document for each of the eighteen namespaces
  whatever ran before. After one \<open>loadSingleNamespace\<close> call on the empty cache the
  locale has an entry holding that single namespace, and \<open>loadLocaleFile\<close> returns this
  entry as it is: one namespace, nothing loaded. The same call on the empty cache returns
  all eighteen.
\<close>

theorem loadLocaleFile_returns_partial_entry:
  "\<exists>d s1. loadSingleNamespace A ''de'' ''common'' (initial_i18n lang) = (Inr d, s1)
     \<and> loadLocaleFile A ''de'' True s1 = (Inr 0, s1)
     \<and> objects s1 0 = [(''common'', d)]
     \<and> map fst (objects s1 0) \<noteq> translationNamespaces
     \<and> map_of (objects s1 0) ''home'' = None
     \<and> (\<exists>s2. loadLocaleFile A ''de'' True (initial_i18n lang) = (Inr 0, s2)
            \<and> map fst (objects s2 0) = translationNamespaces)"
proof -
  let ?d = "document_for A ''de'' ''common''"
  let ?s1 = "(initial_i18n lang)\<lparr>imports_log := imports_of A ''de'' ''common'',
         objects := (\<lambda>r. [])(0 := [(''common'', ?d)]),
         next_ref := Suc 0,
         translationCache := [''de'' \<mapsto> 0]\<rparr>"
  have a: "loadSingleNamespace A ''de'' ''common'' (initial_i18n lang) = (Inr ?d, ?s1)"
    by (rule loadSingleNamespace_initial)
  have b: "loadLocaleFile A ''de'' True ?s1 = (Inr 0, ?s1)"
    by (rule loadLocaleFile_hit) simp
  have c: "objects ?s1 0 = [(''common'', ?d)]"
    by simp
  have d: "map fst (objects ?s1 0) \<noteq> translationNamespaces"
    by (simp add: translationNamespaces_def)
  have e: "map_of (objects ?s1 0) ''home'' = None"
    by simp
  have "translationCache (initial_i18n lang) ''de'' = None"
    by (simp add: initial_i18n_def)
  from loadLocaleFile_refetch [OF this, of A]
  have f: "\<exists>s2. loadLocaleFile A ''de'' True (initial_i18n lang) = (Inr 0, s2)
            \<and> map fst (objects s2 0) = translationNamespaces"
    by (auto simp: initial_i18n_def comp_def)
  from a b c d e f show ?thesis by blast
qed

theorem loadLocaleFile_returns_partial_entry_witness:
  "fst (loadSingleNamespace assets_example ''de'' ''common'' (initial_i18n ''de'')) =
     Inr (JObj [(''title'', JStr ''common'')])
   \<and> loadLocaleFile assets_example ''de'' True
        (snd (loadSingleNamespace assets_example ''de'' ''common'' (initial_i18n ''de''))) =
      (Inr 0, snd (loadSingleNamespace assets_example ''de'' ''common'' (initial_i18n ''de'')))
   \<and> objects (snd (loadSingleNamespace assets_example ''de'' ''common'' (initial_i18n ''de''))) 0 =
      [(''common'', JObj [(''title'', JStr ''common'')])]"
proof -
  obtain d s1 where
    a: "loadSingleNamespace assets_example ''de'' ''common'' (initial_i18n ''de'') = (Inr d, s1)"
    and b: "loadLocaleFile assets_example ''de'' True s1 = (Inr 0, s1)"
    and c: "objects s1 0 = [(''common'', d)]"
    using loadLocaleFile_returns_partial_entry [of assets_example "''de''"] by blast
  have "fst (loadSingleNamespace assets_example ''de'' ''common'' (initial_i18n ''de'')) =
     Inr (JObj [(''title'', JStr ''common'')])"
    by (simp only: loadSingleNamespace_initial fst_conv)
       (simp add: document_for_def localeImportMap_def availableLocales_def
          translationNamespaces_def defaultLanguage_def default_or_module_def
          assets_example_def)
  with a b c show ?thesis by simp
qed





section \<open>Properties of the programmatic lookup\<close>










section \<open>Properties of the content switch\<close>

lemma timeouts_append: "timeouts (xs @ ys) = timeouts xs @ timeouts ys"
  by (induction xs rule: timeouts.induct) simp_all

lemma properties_ms_append: "properties_ms (xs @ ys) = properties_ms xs @ properties_ms ys"
  by (induction xs rule: properties_ms.induct) simp_all

lemma timeouts_concat: "timeouts (concat xss) = concat (map timeouts xss)"
  by (induction xss) (simp_all add: timeouts_append)

lemma properties_ms_concat: "properties_ms (concat xss) = concat (map properties_ms xss)"
  by (induction xss) (simp_all add: properties_ms_append)

text \<open>The index \<^verbatim>\<open>forEach\<close> passes is the position in the list.\<close>

lemma forEach_indexed_from:
  "concat (map (\<lambda>(index, item). body index item) (enumerate k items)) =
   concat (map (\<lambda>j. body (k + j) (items ! j)) [0..<length items])"
proof (induction items arbitrary: k)
  case Nil
  show ?case by simp
next
  case (Cons x xs)
  have "[0..<length (x # xs)] = 0 # map Suc [0..<length xs]"
    by (simp add: upt_conv_Cons map_Suc_upt del: upt_Suc)
  then show ?case
    by (simp add: Cons.IH [of "Suc k"] comp_def del: upt_Suc)
qed

lemma forEach_indexed_nth:
  "forEach_indexed body items = concat (map (\<lambda>j. body j (items ! j)) [0..<length items])"
  using forEach_indexed_from [of body 0 items] by (simp add: forEach_indexed_def)

lemma timeouts_hide:
  "timeouts (forEach_indexed (hide_item animate) items) =
     (if animate
      then map (\<lambda>j. (hideDuration + int j * 30, [SetDisplay (items ! j) ''none'']))
             [0..<length items]
      else [])"
  by (simp add: forEach_indexed_nth timeouts_concat comp_def hide_item_def
      concat_map_singleton del: upt_Suc)

lemma properties_show:
  "properties_ms (forEach_indexed (show_item cfg) items) =
     concat (map (\<lambda>j. [(items ! j, ''--delay'', int j * staggerDelay cfg),
                        (items ! j, ''--duration'', animationDuration cfg)])
               [0..<length items])"
  by (simp add: forEach_indexed_nth properties_ms_concat comp_def show_item_def del: upt_Suc)

lemma fade_begins:
  assumes "i < length items"
  shows "ClassListRemove (items ! i) ''is-visible'' \<in> set (forEach_indexed (hide_item True) items)"
proof -
  from assms have "i \<in> set [0..<length items]" by simp
  then show ?thesis
    unfolding forEach_indexed_nth hide_item_def set_concat set_map by force
qed

lemma timeouts_switchContent:
  "timeouts (switchContent cfg wrapper contents tabValue animate) =
     (if animate
      then map (\<lambda>j. (hideDuration + int j * 30,
                      [SetDisplay (itemsToHide cfg contents tabValue ! j) ''none'']))
             [0..<length (itemsToHide cfg contents tabValue)]
      else [])
     @ [(if animate
         then hideDuration + (int (length (itemsToHide cfg contents tabValue)) - 1) * 30
         else 0,
         show_phase cfg wrapper (itemsToShow cfg contents tabValue))]"
  by (simp add: switchContent_def Let_def timeouts_append timeouts_hide del: upt_Suc)

lemma properties_show_phase:
  "properties_ms (show_phase cfg wrapper toShow) =
     concat (map (\<lambda>j. [(toShow ! j, ''--delay'', int j * staggerDelay cfg),
                        (toShow ! j, ''--duration'', animationDuration cfg)])
               [0..<length toShow])"
  by (simp add: show_phase_def properties_ms_append properties_show del: upt_Suc)

text \<open>
  Claim C9. In an animated call that hides \<open>n\<close> blocks and shows \<open>m\<close>, the timers the call
  starts are, in order: for each outgoing block at position \<open>i\<close>, one of \<open>200 + i * 30\<close>
  milliseconds that takes the block out of the layout, started in the same call that
  removes its visible class (the start of its fade); then the one for the show phase, of
  \<open>200 + (n - 1) * 30\<close> milliseconds. Without animation the only timer is the show phase,
  with delay \<open>0\<close>. The show phase writes for the incoming block at position \<open>j\<close> the delay
  \<open>j * staggerDelay\<close> and the duration \<open>animationDuration\<close>, and no other such property.
\<close>

theorem switchContent_delays:
  "timeouts (switchContent cfg wrapper contents tabValue True) =
     map (\<lambda>i. (200 + int i * 30, [SetDisplay (itemsToHide cfg contents tabValue ! i) ''none'']))
       [0..<length (itemsToHide cfg contents tabValue)]
     @ [(200 + (int (length (itemsToHide cfg contents tabValue)) - 1) * 30,
         show_phase cfg wrapper (itemsToShow cfg contents tabValue))]
   \<and> (\<forall>i < length (itemsToHide cfg contents tabValue).
         ClassListRemove (itemsToHide cfg contents tabValue ! i) ''is-visible''
           \<in> set (switchContent cfg wrapper contents tabValue True))
   \<and> timeouts (switchContent cfg wrapper contents tabValue False) =
       [(0, show_phase cfg wrapper (itemsToShow cfg contents tabValue))]
   \<and> properties_ms (show_phase cfg wrapper (itemsToShow cfg contents tabValue)) =
       concat (map (\<lambda>j. [(itemsToShow cfg contents tabValue ! j, ''--delay'',
                           int j * staggerDelay cfg),
                          (itemsToShow cfg contents tabValue ! j, ''--duration'',
                           animationDuration cfg)])
                 [0..<length (itemsToShow cfg contents tabValue)])"
proof -
  have a: "timeouts (switchContent cfg wrapper contents tabValue True) =
     map (\<lambda>i. (200 + int i * 30, [SetDisplay (itemsToHide cfg contents tabValue ! i) ''none'']))
       [0..<length (itemsToHide cfg contents tabValue)]
     @ [(200 + (int (length (itemsToHide cfg contents tabValue)) - 1) * 30,
         show_phase cfg wrapper (itemsToShow cfg contents tabValue))]"
    by (simp add: timeouts_switchContent hideDuration_def del: upt_Suc)
  have b: "ClassListRemove (itemsToHide cfg contents tabValue ! i) ''is-visible''
           \<in> set (switchContent cfg wrapper contents tabValue True)"
    if "i < length (itemsToHide cfg contents tabValue)" for i
    using fade_begins [OF that] by (simp add: switchContent_def Let_def)
  have c: "timeouts (switchContent cfg wrapper contents tabValue False) =
       [(0, show_phase cfg wrapper (itemsToShow cfg contents tabValue))]"
    by (simp add: timeouts_switchContent)
  note d = properties_show_phase [of cfg wrapper "itemsToShow cfg contents tabValue"]
  from a b c d show ?thesis by blast
qed

theorem switchContent_delays_witness:
  "itemsToHide config_example contents_example ''b'' = [0, 3]
   \<and> itemsToShow config_example contents_example ''b'' = [1, 2]
   \<and> ClassListRemove 3 ''is-visible''
       \<in> set (switchContent config_example True contents_example ''b'' True)
   \<and> map fst (timeouts (switchContent config_example True contents_example ''b'' True)) =
       [200, 230, 230]
   \<and> properties_ms (show_phase config_example True [1, 2]) =
       [(1, ''--delay'', 0), (1, ''--duration'', 600),
        (2, ''--delay'', 1000), (2, ''--duration'', 600)]"
proof -
  have up: "[0..<4] = [0, 1, 2, 3]"
    by (simp add: upt_rec)
  have hide: "itemsToHide config_example contents_example ''b'' = [0, 3]"
    by (simp add: itemsToHide_def shouldShow_def config_example_def contents_example_def up)
  have shown: "itemsToShow config_example contents_example ''b'' = [1, 2]"
    by (simp add: itemsToShow_def shouldShow_def config_example_def contents_example_def up)
  note inst = switchContent_delays [of config_example True contents_example "''b''"]
  have lt: "1 < length (itemsToHide config_example contents_example ''b'')"
    by (simp add: hide)
  from inst lt
  have "ClassListRemove (itemsToHide config_example contents_example ''b'' ! 1) ''is-visible''
       \<in> set (switchContent config_example True contents_example ''b'' True)"
    by blast
  then have fade: "ClassListRemove 3 ''is-visible''
       \<in> set (switchContent config_example True contents_example ''b'' True)"
    by (simp add: hide)
  from inst have "timeouts (switchContent config_example True contents_example ''b'' True) =
     map (\<lambda>i. (200 + int i * 30,
                [SetDisplay (itemsToHide config_example contents_example ''b'' ! i) ''none'']))
       [0..<length (itemsToHide config_example contents_example ''b'')]
     @ [(200 + (int (length (itemsToHide config_example contents_example ''b'')) - 1) * 30,
         show_phase config_example True (itemsToShow config_example contents_example ''b''))]"
    by (rule conjunct1)
  then have delays:
    "map fst (timeouts (switchContent config_example True contents_example ''b'' True)) =
       [200, 230, 230]"
    unfolding hide by (simp add: upt_rec)
  from inst have "properties_ms
        (show_phase config_example True (itemsToShow config_example contents_example ''b'')) =
       concat (map (\<lambda>j. [(itemsToShow config_example contents_example ''b'' ! j, ''--delay'',
                           int j * staggerDelay config_example),
                          (itemsToShow config_example contents_example ''b'' ! j, ''--duration'',
                           animationDuration config_example)])
                 [0..<length (itemsToShow config_example contents_example ''b'')])"
    by blast
  then have props: "properties_ms (show_phase config_example True [1, 2]) =
       [(1, ''--delay'', 0), (1, ''--duration'', 600),
        (2, ''--delay'', 1000), (2, ''--duration'', 600)]"
    unfolding shown by (simp add: upt_rec config_example_def)
  from hide shown fade delays props show ?thesis by blast
qed

section \<open>Properties of the tab controller\<close>



lemma length_updateActiveTab [simp]: "length (updateActiveTab i ts) = length ts"
  by (simp add: updateActiveTab_def)


lemma tab_attr_mark [simp]:
  "tab_attr (mark_active x) = tab_attr x" "tab_attr (mark_inactive x) = tab_attr x"
  by (simp_all add: mark_active_def mark_inactive_def)



lemma unmarked_not_active: "unmarked x \<Longrightarrow> \<not> is_active x"
  by (auto simp: unmarked_def is_active_def active_classes_def)


lemma initTabs_Some:
  "initTabs cfg ts n p = Some s \<Longrightarrow>
   ts \<noteq> [] \<and> n \<noteq> 0 \<and> activated s = [(param_or_default cfg p, False)]
   \<and> length (tabs s) = length ts
   \<and> tabs s = (case findIndex (\<lambda>x. tab_attr x = Some (param_or_default cfg p)) ts of
                 Some i \<Rightarrow> updateActiveTab i ts
               | None \<Rightarrow> ts)"
  by (auto simp: initTabs_def Let_def set_timer_def split: if_splits option.splits)

lemma initTabs_None: "initTabs cfg ts n p = None \<longleftrightarrow> ts = [] \<or> n = 0"
  by (simp add: initTabs_def Let_def)

lemmas tab_eval =
  initTabs_def param_or_default_def config_example_def tabs_abc_def tabs_gap_def
  set_timer_def updateActiveTab_def mark_active_def mark_inactive_def Let_def
  current_value_def active_classes_def

text \<open>
  Claim C6 as stated fails: with the parameter set to a value that no trigger carries,
  the set-up activates that value, not the default.
\<close>

theorem initTabs_unknown_value_counterexample:
  "\<not> list_ex (\<lambda>x. tab_attr x = Some ''zzz'') tabs_abc
   \<and> defaultTab config_example = ''a''
   \<and> map_option activated (initTabs config_example tabs_abc 3 (Some ''zzz'')) =
       Some [(''zzz'', False)]"
  by (simp add: tab_eval)

text \<open>
  Claim C6, amended. For every tab group with at least one trigger and one content block,
  the value activated at initialization (without animation) is the value of the query
  parameter whenever the parameter is present and not empty, whether or not a trigger
  carries it, and the configured default otherwise. A group without triggers or without
  content blocks is not set up at all.
\<close>

theorem initTabs_activates_param_or_default:
  "(initTabs cfg ts n p = None \<longleftrightarrow> ts = [] \<or> n = 0)
   \<and> (\<forall>s. initTabs cfg ts n p = Some s \<longrightarrow>
         activated s =
           [(case p of
               Some v \<Rightarrow> if v \<noteq> [] then v else defaultTab cfg
             | None \<Rightarrow> defaultTab cfg, False)]
         \<and> current_value s =
           Some (case p of
                   Some v \<Rightarrow> if v \<noteq> [] then v else defaultTab cfg
                 | None \<Rightarrow> defaultTab cfg))"
proof -
  have "activated s = [(param_or_default cfg p, False)]
      \<and> current_value s = Some (param_or_default cfg p)"
    if "initTabs cfg ts n p = Some s" for s
    using initTabs_Some [OF that] by (simp add: current_value_def)
  then show ?thesis
    unfolding param_or_default_def using initTabs_None [of cfg ts n p] by blast
qed

theorem initTabs_activates_param_or_default_witness:
  "initTabs config_example tabs_abc 3 (Some ''c'') \<noteq> None
   \<and> map_option current_value (initTabs config_example tabs_abc 3 (Some ''c'')) = Some (Some ''c'')"
proof -
  have "initTabs config_example tabs_abc 3 (Some ''c'') \<noteq> None"
    by (simp add: initTabs_None tabs_abc_def)
  then obtain s where s: "initTabs config_example tabs_abc 3 (Some ''c'') = Some s"
    by blast
  with initTabs_activates_param_or_default [of config_example tabs_abc 3 "Some ''c''"]
  have "current_value s = Some ''c''"
    by simp
  with s show ?thesis by simp
qed













lemma restarts_first_filter: "restarts_first xs \<Longrightarrow> restarts_first (filter P xs)"
proof (induction xs)
  case Nil
  then show ?case by simp
next
  case (Cons x xs)
  then show ?case
    by (cases "task x") (auto split: timer_task.splits)
qed


lemma restarts_first_tail: "restarts_first (x # xs) \<Longrightarrow> restarts_first xs"
  by (cases "task x") simp_all

lemma restarts_first_head_rotate:
  "restarts_first (x # xs) \<Longrightarrow> task x = RotateTick \<Longrightarrow> xs = []"
  by simp


lemma updateActiveTab_Nil [simp]: "updateActiveTab i ts = [] \<longleftrightarrow> ts = []"
  using length_updateActiveTab [of i ts] by (metis length_0_conv)




























end
